theory Spec2Isabelle
  imports Complex_Main "HOL-Library.Log_Nat"
begin

section \<open>The medallion pipeline (etl\_medallion.py)\<close>

text \<open>
  The pipeline talks to the warehouse through one client object \<open>bq\<close>. Every statement
  is submitted with \<open>bq.query(sql)\<close> and waited for with \<open>job.result()\<close>; either call
  may raise. The SQL text of every statement is fixed once \<open>PROJECT_ID\<close> and \<open>BUCKET\<close>
  are read from the environment, so a statement is identified by a constructor of \<open>sql\<close>
  instead of its text.
\<close>

datatype layer = Bronze | Silver | Gold

datatype table = Employees | Products | Sales

datatype sql =
    CreateSchema layer
  | LoadData table
  | SilverEmployees
  | SilverProducts
  | SilverSales
  | GoldSalesAnalytics
  | GoldProductMetrics
  | GoldSalesSummary
  | ListTables layer
  | CountRows layer string

text \<open>
  A Python exception (a subclass of \<open>Exception\<close>): its class, where the program depends
  on it, and the text \<open>str(e)\<close> gives.
\<close>

datatype exn = Exception string | IndexError string | KeyError string | AttributeError string

fun str :: "exn \<Rightarrow> string" where
  "str (Exception m) = m"
| "str (IndexError m) = m"
| "str (KeyError m) = m"
| "str (AttributeError m) = m"

text \<open>
  A row of a result set. \<open>verify_results\<close> reads the attribute \<open>table_name\<close> of the rows
  of the metadata query and the attribute \<open>row_count\<close> of the first row of a count
  query; reading an attribute a row does not have raises.
\<close>

datatype row = TableRow string | CountRow int

fun table_name :: "row \<Rightarrow> exn + string" where
  "table_name (TableRow t) = Inr t"
| "table_name (CountRow n) = Inl (AttributeError ''table_name'')"

fun row_count :: "row \<Rightarrow> exn + int" where
  "row_count (CountRow n) = Inr n"
| "row_count (TableRow t) = Inl (AttributeError ''row_count'')"

text \<open>
  The warehouse is a parameter: its answer to a statement, given the statements
  submitted before it in this process, is either an exception or the result rows.
\<close>

type_synonym warehouse = "sql list \<Rightarrow> sql \<Rightarrow> exn + row list"

text \<open>The lines the pipeline prints, one constructor per \<open>print\<close> call of the source.\<close>

datatype line =
    StmtOk sql
  | StmtError sql string
  | LayerStart layer
  | LayerFailed layer
  | BlankLine
  | PipelineStart
  | PipelineCompleted
  | PipelineFailed
  | VerifyStart
  | DatasetHeader layer
  | TableCount string int
  | TableCountError string
  | DatasetEmpty layer
  | DatasetError layer string

text \<open>
  The observable state of a run: the statements submitted to the warehouse so far, in
  order, and the lines printed so far, in order.
\<close>

record world =
  submitted :: "sql list"
  printed :: "line list"

definition print :: "line \<Rightarrow> world \<Rightarrow> world" where
  "print l w = w\<lparr>printed := printed w @ [l]\<rparr>"

text \<open>\<open>job = bq.query(sql); job.result()\<close>: the statement is submitted, then it answers.\<close>

definition bq_query :: "warehouse \<Rightarrow> sql \<Rightarrow> world \<Rightarrow> (exn + row list) \<times> world" where
  "bq_query bq q w = (bq (submitted w) q, w\<lparr>submitted := submitted w @ [q]\<rparr>)"

text \<open>
  \<open>run_query\<close>: the \<open>try\<close> catches every exception of the submission, prints the first
  100 characters of its text and returns \<open>False\<close>.
\<close>

definition run_query :: "warehouse \<Rightarrow> sql \<Rightarrow> world \<Rightarrow> bool \<times> world" where
  "run_query bq q w =
     (case bq_query bq q w of
        (Inr rows, w') \<Rightarrow> (True, print (StmtOk q) w')
      | (Inl e, w') \<Rightarrow> (False, print (StmtError q (take 100 (str e))) w'))"

text \<open>
  The loop shared by the three layers:
  \<^verbatim>\<open>
  success = True
  for sql, desc in statements:
      if not run_query(sql, desc):
          success = False
  return success
  \<close>
  The flag is threaded as an accumulator; the loop has no \<open>break\<close>.
\<close>

fun run_statements :: "warehouse \<Rightarrow> sql list \<Rightarrow> bool \<Rightarrow> world \<Rightarrow> bool \<times> world" where
  "run_statements bq [] success w = (success, w)"
| "run_statements bq (q # qs) success w =
     (case run_query bq q w of
        (ok, w') \<Rightarrow> run_statements bq qs (if \<not> ok then False else success) w')"

text \<open>The statement list each layer loops over, after its \<open>CREATE SCHEMA\<close>.\<close>

fun layer_statements :: "layer \<Rightarrow> sql list" where
  "layer_statements Bronze = [LoadData Employees, LoadData Products, LoadData Sales]"
| "layer_statements Silver = [SilverEmployees, SilverProducts, SilverSales]"
| "layer_statements Gold = [GoldSalesAnalytics, GoldProductMetrics, GoldSalesSummary]"

definition bronze_layer :: "warehouse \<Rightarrow> world \<Rightarrow> bool \<times> world" where
  "bronze_layer bq w =
     (let w0 = print (LayerStart Bronze) w in
      case run_query bq (CreateSchema Bronze) w0 of
        (False, w1) \<Rightarrow> (False, w1)
      | (True, w1) \<Rightarrow> run_statements bq (layer_statements Bronze) True w1)"

definition silver_layer :: "warehouse \<Rightarrow> world \<Rightarrow> bool \<times> world" where
  "silver_layer bq w =
     (let w0 = print (LayerStart Silver) w in
      case run_query bq (CreateSchema Silver) w0 of
        (False, w1) \<Rightarrow> (False, w1)
      | (True, w1) \<Rightarrow> run_statements bq (layer_statements Silver) True w1)"

definition gold_layer :: "warehouse \<Rightarrow> world \<Rightarrow> bool \<times> world" where
  "gold_layer bq w =
     (let w0 = print (LayerStart Gold) w in
      case run_query bq (CreateSchema Gold) w0 of
        (False, w1) \<Rightarrow> (False, w1)
      | (True, w1) \<Rightarrow> run_statements bq (layer_statements Gold) True w1)"

text \<open>The \<open>layers\<close> list of \<open>run_etl\<close> pairs each name with its function.\<close>

fun layer_func :: "layer \<Rightarrow> warehouse \<Rightarrow> world \<Rightarrow> bool \<times> world" where
  "layer_func Bronze = bronze_layer"
| "layer_func Silver = silver_layer"
| "layer_func Gold = gold_layer"

subsection \<open>Verification\<close>

text \<open>
  The inner loop of \<open>verify_results\<close> over the rows of the metadata query. Reading
  \<open>table_row.table_name\<close> is outside the inner \<open>try\<close>, so its exception leaves the loop;
  the count query, \<open>list(...)[0]\<close>, \<open>.row_count\<close> and the print are inside it.
\<close>

fun first_row :: "row list \<Rightarrow> exn + row" where
  "first_row [] = Inl (IndexError ''list index out of range'')"
| "first_row (r # rs) = Inr r"

definition count_table :: "warehouse \<Rightarrow> layer \<Rightarrow> string \<Rightarrow> world \<Rightarrow> (exn + int) \<times> world" where
  "count_table bq d t w =
     (case bq_query bq (CountRows d t) w of
        (Inl e, w') \<Rightarrow> (Inl e, w')
      | (Inr rows, w') \<Rightarrow>
          (case first_row rows of
             Inl e \<Rightarrow> (Inl e, w')
           | Inr r \<Rightarrow> (row_count r, w')))"

fun count_tables :: "warehouse \<Rightarrow> layer \<Rightarrow> row list \<Rightarrow> world \<Rightarrow> (exn + unit) \<times> world" where
  "count_tables bq d [] w = (Inr (), w)"
| "count_tables bq d (r # rs) w =
     (case table_name r of
        Inl e \<Rightarrow> (Inl e, w)
      | Inr t \<Rightarrow>
          (case count_table bq d t w of
             (Inr n, w') \<Rightarrow> count_tables bq d rs (print (TableCount t n) w')
           | (Inl e, w') \<Rightarrow> count_tables bq d rs (print (TableCountError t) w')))"

text \<open>The body of the outer \<open>try\<close> for one dataset, then its \<open>except\<close>.\<close>

definition verify_dataset_body :: "warehouse \<Rightarrow> layer \<Rightarrow> world \<Rightarrow> (exn + unit) \<times> world" where
  "verify_dataset_body bq d w =
     (case bq_query bq (ListTables d) w of
        (Inl e, w') \<Rightarrow> (Inl e, w')
      | (Inr tables, w') \<Rightarrow>
          (if tables \<noteq> [] then count_tables bq d tables (print (DatasetHeader d) w')
           else (Inr (), print (DatasetEmpty d) w')))"

definition verify_dataset :: "warehouse \<Rightarrow> layer \<Rightarrow> world \<Rightarrow> (exn + unit) \<times> world" where
  "verify_dataset bq d w =
     (case verify_dataset_body bq d w of
        (Inl e, w') \<Rightarrow> (Inr (), print (DatasetError d (take 50 (str e))) w')
      | (Inr u, w') \<Rightarrow> (Inr (), w'))"

fun verify_datasets :: "warehouse \<Rightarrow> layer list \<Rightarrow> world \<Rightarrow> (exn + unit) \<times> world" where
  "verify_datasets bq [] w = (Inr (), w)"
| "verify_datasets bq (d # ds) w =
     (case verify_dataset bq d w of
        (Inl e, w') \<Rightarrow> (Inl e, w')
      | (Inr u, w') \<Rightarrow> verify_datasets bq ds w')"

definition verify_results :: "warehouse \<Rightarrow> world \<Rightarrow> (exn + unit) \<times> world" where
  "verify_results bq w = verify_datasets bq [Bronze, Silver, Gold] (print VerifyStart w)"

subsection \<open>The pipeline\<close>

text \<open>
  The loop of \<open>run_etl\<close> over \<open>layers\<close>: it returns \<open>overall_success\<close>.
  \<^verbatim>\<open>
  for layer_name, layer_func in layers:
      success = layer_func()
      if not success:
          print(... layer_name ...); overall_success = False; break
      print()
  \<close>
\<close>

fun run_layers :: "warehouse \<Rightarrow> layer list \<Rightarrow> world \<Rightarrow> bool \<times> world" where
  "run_layers bq [] w = (True, w)"
| "run_layers bq (l # ls) w =
     (case layer_func l bq w of
        (False, w') \<Rightarrow> (False, print (LayerFailed l) w')
      | (True, w') \<Rightarrow> run_layers bq ls (print BlankLine w'))"

text \<open>
  \<open>run_etl\<close> has no \<open>return\<close> statement: when no exception escapes, it returns \<open>None\<close>,
  the \<open>Inr ()\<close> of the model.
\<close>

definition run_etl :: "warehouse \<Rightarrow> world \<Rightarrow> (exn + unit) \<times> world" where
  "run_etl bq w =
     (case run_layers bq [Bronze, Silver, Gold] (print PipelineStart w) of
        (True, w1) \<Rightarrow>
          (case verify_results bq w1 of
             (Inl e, w2) \<Rightarrow> (Inl e, w2)
           | (Inr u, w2) \<Rightarrow> (Inr (), print PipelineCompleted w2))
      | (False, w1) \<Rightarrow> (Inr (), print PipelineFailed w1))"

subsection \<open>The trigger route (main.py)\<close>

text \<open>
  The handler of \<open>POST /trigger-etl\<close>. \<open>request.get_json()\<close> is the one call before the
  pipeline that can raise (a body that is not JSON); its outcome is a parameter. Of the
  JSON body, the \<open>status\<close> field is the constructor (\<open>'success'\<close> or \<open>'error'\<close>), the
  message and the stage list or the suggestion are its arguments, and the timestamp is
  left out.
\<close>

datatype body =
    SuccessBody string "string list"
  | ErrorBody string string

record response =
  http_status :: nat
  json :: body

definition trigger_etl_endpoint ::
  "warehouse \<Rightarrow> (exn + unit) \<Rightarrow> world \<Rightarrow> response \<times> world" where
  "trigger_etl_endpoint bq get_json w =
     (case get_json of
        Inl e \<Rightarrow>
          (\<lparr>http_status = 500,
            json = ErrorBody (str e) ''Verifica logs de BigQuery y permisos de GCS''\<rparr>, w)
      | Inr data \<Rightarrow>
          (case run_etl bq w of
             (Inl e, w') \<Rightarrow>
               (\<lparr>http_status = 500,
                 json = ErrorBody (str e) ''Verifica logs de BigQuery y permisos de GCS''\<rparr>, w')
           | (Inr u, w') \<Rightarrow>
               (\<lparr>http_status = 200,
                 json = SuccessBody ''ETL pipeline completed successfully''
                          [''bronze'', ''silver'', ''gold'']\<rparr>, w')))"

text \<open>A run starts from an empty log.\<close>

definition start :: world where
  "start = \<lparr>submitted = [], printed = []\<rparr>"

subsection \<open>Observing a run\<close>

text \<open>Whether the warehouse accepts statement \<open>q\<close> after the statements \<open>h\<close>.\<close>

definition succeeds :: "warehouse \<Rightarrow> sql list \<Rightarrow> sql \<Rightarrow> bool" where
  "succeeds bq h q = (case bq h q of Inr rows \<Rightarrow> True | Inl e \<Rightarrow> False)"

text \<open>Whether every statement of a list is accepted when they are submitted in order.\<close>

fun all_succeed :: "warehouse \<Rightarrow> sql list \<Rightarrow> sql list \<Rightarrow> bool" where
  "all_succeed bq h [] = True"
| "all_succeed bq h (q # qs) = (succeeds bq h q \<and> all_succeed bq (h @ [q]) qs)"

text \<open>The statements submitted between the world \<open>w\<close> and a later world \<open>w'\<close>.\<close>

definition new_statements :: "world \<Rightarrow> world \<Rightarrow> sql list" where
  "new_statements w w' = drop (length (submitted w)) (submitted w')"

text \<open>
  Three warehouses used as concrete inputs: one whose bucket lacks the employees file,
  one that rejects every statement, and one that rejects the silver products statement.
\<close>

definition failing_load :: warehouse where
  "failing_load h q =
     (if q = LoadData Employees then Inl (Exception ''Not found: URI'') else Inr [])"

definition reject_all :: warehouse where
  "reject_all h q = Inl (Exception ''Access Denied'')"

definition failing_silver :: warehouse where
  "failing_silver h q =
     (if q = SilverProducts then Inl (Exception ''Unrecognized name: is_active'')
      else Inr [])"

section \<open>The data generator (data\_generator.py)\<close>

text \<open>The value pools, as the module declares them.\<close>

definition DEPARTMENTS :: "string list" where
  "DEPARTMENTS =
     [''Engineering'', ''Data Science'', ''Product Management'', ''Marketing'',
      ''Sales'', ''Customer Success'', ''Human Resources'', ''Finance'',
      ''Operations'', ''Legal'', ''Security'', ''DevOps'']"

definition JOB_LEVELS :: "string list" where
  "JOB_LEVELS = [''Junior'', ''Mid-Level'', ''Senior'', ''Lead'', ''Manager'', ''Director'', ''VP'']"

definition OFFICE_LOCATIONS :: "string list" where
  "OFFICE_LOCATIONS =
     [''San Francisco, CA'', ''New York, NY'', ''Austin, TX'', ''Seattle, WA'',
      ''Madrid, Spain'', ''Mexico City, Mexico'', ''Remote'', ''London, UK'']"

definition CUSTOMER_SEGMENTS :: "string list" where
  "CUSTOMER_SEGMENTS = [''Enterprise'', ''SMB'', ''Individual'', ''Government'', ''Education'']"

subsection \<open>Formatting\<close>

text \<open>
  The format specifications \<open>{emp_id:05d}\<close> and \<open>{sale_id:08d}\<close>: the decimal digits of
  the integer, padded on the left with zeros up to the width (a sign counts towards the
  width); an integer with more digits than the width is written out in full.
\<close>

fun digits :: "nat \<Rightarrow> string" where
  "digits n =
     (if n < 10 then [''0123456789'' ! n]
      else digits (n div 10) @ [''0123456789'' ! (n mod 10)])"

declare digits.simps [simp del]

definition zfill :: "nat \<Rightarrow> string \<Rightarrow> string" where
  "zfill width s = replicate (width - length s) CHR ''0'' @ s"

definition format_0d :: "nat \<Rightarrow> int \<Rightarrow> string" where
  "format_0d width i =
     (if i < 0 then CHR ''-'' # zfill (width - 1) (digits (nat (- i)))
      else zfill width (digits (nat i)))"

text \<open>The number a string of decimal digits denotes.\<close>

definition string_value :: "string \<Rightarrow> nat" where
  "string_value s = foldl (\<lambda>a c. 10 * a + (of_char c - 48)) 0 s"

subsection \<open>Random draws\<close>

text \<open>
  The generator draws from \<open>random\<close> and Faker. Each draw is a parameter of the model:
  the functions below take what the random source delivered and compute what the
  library call returns. \<open>random.choice\<close> and \<open>random.choices(...)[0]\<close> pick the element
  at a drawn index and raise \<open>IndexError\<close> on an empty sequence; \<open>random.randint(a, b)\<close>
  returns an integer between \<open>a\<close> and \<open>b\<close>, both included.
\<close>

fun choice :: "nat \<Rightarrow> 'a list \<Rightarrow> exn + 'a" where
  "choice r [] = Inl (IndexError ''Cannot choose from an empty sequence'')"
| "choice r (x # xs) = Inr ((x # xs) ! (r mod length (x # xs)))"

definition randint :: "nat \<Rightarrow> int \<Rightarrow> int \<Rightarrow> int" where
  "randint r a b = a + int (r mod nat (b - a + 1))"

text \<open>Subscripting a dict literal, \<open>d[k]\<close>: the value of the first matching key.\<close>

fun lookup :: "(string \<times> 'v) list \<Rightarrow> string \<Rightarrow> exn + 'v" where
  "lookup [] k = Inl (KeyError k)"
| "lookup ((k', v) # kvs) k = (if k' = k then Inr v else lookup kvs k)"

text \<open>
  A \<open>for\<close> loop that appends one record per item to a list and returns the list; an
  exception raised by the body leaves the loop and the function.
\<close>

fun for_each :: "('a \<Rightarrow> exn + 'b) \<Rightarrow> 'a list \<Rightarrow> 'b list \<Rightarrow> exn + 'b list" where
  "for_each body [] acc = Inr acc"
| "for_each body (x # xs) acc =
     (case body x of Inl e \<Rightarrow> Inl e | Inr y \<Rightarrow> for_each body xs (acc @ [y]))"

subsection \<open>Binary floating point\<close>

text \<open>
  Python's \<open>float\<close> is IEEE 754 binary64. A float is a rational number, and the result of
  an arithmetic operation is the exact result rounded to the nearest float, ties to the
  even significand. \<open>float_round\<close> is that rounding on the rationals: 53 significant
  bits, with the fixed spacing \<open>2 ^ - 1074\<close> of the subnormal range below \<open>2 ^ - 1022\<close>
  (overflow to infinity is not modelled; the salaries stay far below it).
\<close>

definition round_half_even :: "rat \<Rightarrow> int" where
  "round_half_even x =
     (let f = \<lfloor>x\<rfloor>; r = x - of_int f in
      if r < 1 / 2 then f else if 1 / 2 < r then f + 1 else if even f then f else f + 1)"

text \<open>The binary exponent of a positive rational: \<open>2 ^ ilog2 x \<le> x < 2 ^ (ilog2 x + 1)\<close>.\<close>

definition ilog2 :: "rat \<Rightarrow> int" where
  "ilog2 x =
     (if 1 \<le> x then bitlen \<lfloor>x\<rfloor> - 1
      else (let k = bitlen \<lfloor>1 / x\<rfloor> - 1 in if x * 2 ^ nat k = 1 then - k else - k - 1))"

definition float_round :: "rat \<Rightarrow> rat" where
  "float_round x =
     (if x = 0 then 0
      else (let e = max (ilog2 \<bar>x\<bar>) (- 1022); ulp = 2 powi (e - 52)
            in sgn x * of_int (round_half_even (\<bar>x\<bar> / ulp)) * ulp))"

text \<open>The product of two floats.\<close>

definition float_mul :: "rat \<Rightarrow> rat \<Rightarrow> rat" where
  "float_mul x y = float_round (x * y)"

text \<open>
  \<open>round(x, 2)\<close> on a float: the exact value of \<open>x\<close> rounded to two decimals, ties to
  even, and the decimal result converted back to the nearest float.
\<close>

definition py_round2 :: "rat \<Rightarrow> rat" where
  "py_round2 x = float_round (of_int (round_half_even (x * 100)) / 100)"

subsection \<open>Employees\<close>

text \<open>
  The employee dict, with the keys the generator computes itself. The keys \<open>full_name\<close>,
  \<open>email\<close>, \<open>job_title\<close>, \<open>hire_date\<close>, \<open>last_promotion_date\<close>, \<open>phone\<close>,
  \<open>performance_rating\<close>, \<open>is_active\<close>, \<open>work_type\<close> and \<open>created_at\<close> hold texts, dates
  and draws that no other key is computed from; they are left out.
\<close>

record employee =
  employee_id :: string
  first_name :: string
  last_name :: string
  department :: string
  job_level :: string
  location :: string
  salary :: rat
  manager_id :: "string option"

text \<open>
  What the random source delivers in one iteration of the employee loop: the names Faker
  returns, the indices \<open>random.choice\<close> draws, the float \<open>random.random()\<close> returns for
  the manager test, the integer \<open>random.randint\<close> draws, and the seven results of
  \<open>random.uniform\<close>: \<open>uniform d k a b\<close> is what the \<open>k\<close>-th call of the iteration,
  \<open>random.uniform(a, b)\<close>, returns.
\<close>

record emp_draws =
  faker_first_name :: string
  faker_last_name :: string
  department_draw :: nat
  job_level_draw :: nat
  location_draw :: nat
  uniform :: "nat \<Rightarrow> rat \<Rightarrow> rat \<Rightarrow> rat"
  manager_random :: rat
  manager_draw :: nat

text \<open>The documented contract of \<open>random.uniform(a, b)\<close>: a float \<open>N\<close> with \<open>a \<le> N \<le> b\<close>.\<close>

definition uniform_ok :: "emp_draws \<Rightarrow> bool" where
  "uniform_ok d \<longleftrightarrow> (\<forall>k a b. a \<le> b \<longrightarrow> a \<le> uniform d k a b \<and> uniform d k a b \<le> b)"

text \<open>The dict literal \<open>base_salary\<close>: all seven draws are made, in this order.\<close>

definition base_salary :: "emp_draws \<Rightarrow> (string \<times> rat) list" where
  "base_salary d =
     [(''Junior'', uniform d 0 50000 70000),
      (''Mid-Level'', uniform d 1 70000 95000),
      (''Senior'', uniform d 2 95000 130000),
      (''Lead'', uniform d 3 120000 160000),
      (''Manager'', uniform d 4 140000 180000),
      (''Director'', uniform d 5 170000 220000),
      (''VP'', uniform d 6 200000 350000)]"

text \<open>
  \<open>1.3 if department in [...] else 1.0\<close>: the literal \<open>1.3\<close> is the float nearest to
  thirteen tenths.
\<close>

definition dept_multiplier :: "string \<Rightarrow> rat" where
  "dept_multiplier dept =
     (if dept \<in> set [''Engineering'', ''Data Science'', ''DevOps''] then float_round (13 / 10)
      else 1)"

text \<open>
  One iteration of the loop of \<open>generate_employees\<close>. The literal \<open>0.1\<close> of the manager
  test is the float nearest to one tenth.
\<close>

definition employee_of :: "emp_draws \<Rightarrow> int \<Rightarrow> exn + employee" where
  "employee_of d emp_id =
     (case choice (department_draw d) DEPARTMENTS of
        Inl e \<Rightarrow> Inl e
      | Inr dept \<Rightarrow>
     (case choice (job_level_draw d) JOB_LEVELS of
        Inl e \<Rightarrow> Inl e
      | Inr lvl \<Rightarrow>
     (case choice (location_draw d) OFFICE_LOCATIONS of
        Inl e \<Rightarrow> Inl e
      | Inr loc \<Rightarrow>
     (case lookup (base_salary d) lvl of
        Inl e \<Rightarrow> Inl e
      | Inr base \<Rightarrow>
          Inr \<lparr>employee_id = ''EMP-'' @ format_0d 5 emp_id,
               first_name = faker_first_name d,
               last_name = faker_last_name d,
               department = dept,
               job_level = lvl,
               location = loc,
               salary = py_round2 (float_mul base (dept_multiplier dept)),
               manager_id =
                 (if 1 < emp_id \<and> float_round (1 / 10) < manager_random d
                  then Some (''EMP-'' @ format_0d 5 (randint (manager_draw d) 1 (max 1 (emp_id - 1))))
                  else None)\<rparr>))))"

text \<open>
  \<open>generate_employees\<close>: the loop over \<open>range(1, num_employees + 1)\<close>; \<open>rnd emp_id\<close> is
  what the random source delivers in the iteration of \<open>emp_id\<close>.
\<close>

definition generate_employees :: "(int \<Rightarrow> emp_draws) \<Rightarrow> int \<Rightarrow> exn + employee list" where
  "generate_employees rnd num_employees =
     for_each (\<lambda>emp_id. employee_of (rnd emp_id) emp_id) [1..num_employees] []"

text \<open>
  The base range of each job level and the position of its draw among the seven, as the
  dict literal gives them; and the departments that get the multiplier.
\<close>

definition base_ranges :: "(string \<times> nat \<times> rat \<times> rat) list" where
  "base_ranges =
     [(''Junior'', 0, 50000, 70000),
      (''Mid-Level'', 1, 70000, 95000),
      (''Senior'', 2, 95000, 130000),
      (''Lead'', 3, 120000, 160000),
      (''Manager'', 4, 140000, 180000),
      (''Director'', 5, 170000, 220000),
      (''VP'', 6, 200000, 350000)]"

definition tech_departments :: "string list" where
  "tech_departments = [''Engineering'', ''Data Science'', ''DevOps'']"

text \<open>
  The facts about one end \<open>x\<close> of a base range under the float multiplier \<open>m\<close> that are
  settled by evaluation: the float product is \<open>A\<close>, and \<open>A\<close> is a float with at most two
  decimals.
\<close>

definition bound_ok :: "rat \<Rightarrow> rat \<Rightarrow> rat \<Rightarrow> bool" where
  "bound_ok m x A \<longleftrightarrow>
     float_round (x * m) = A \<and> of_int (round_half_even (A * 100)) / 100 = A \<and>
     float_round A = A \<and> 0 < A \<and> 0 < x \<and> 0 < m"

subsection \<open>Sales\<close>

text \<open>
  The product dict, with the keys \<open>generate_sales\<close> reads, and the sale dict, with the
  keys it computes from the products, the employees and the integer draws. The customer
  name and e-mail, the float amounts (\<open>final_unit_price\<close>, \<open>total_amount\<close>,
  \<open>shipping_cost\<close>) and the keys \<open>channel\<close>, \<open>region\<close>, \<open>payment_method\<close>, \<open>status\<close> and
  \<open>created_at\<close> are left out: no other key is computed from them.
\<close>

record product =
  product_id :: string
  product_name :: string
  category :: string
  price :: rat
  is_active :: bool

text \<open>
  The date arguments Faker's \<open>date_between\<close> is called with: the text \<open>'today'\<close>, or a
  signed number followed by a unit letter, \<open>'-2m'\<close> being \<open>Delta (- 2) CHR ''m''\<close> and
  \<open>'-1y'\<close> being \<open>Delta (- 1) CHR ''y''\<close>. How the library resolves them to a day is a
  parameter \<open>resolve\<close> of the generator: the number of the day, counted from any fixed day.
\<close>

datatype date_arg = Today | Delta int char

record sale =
  transaction_id :: string
  product_id :: string
  product_name :: string
  category :: string
  customer_segment :: string
  sales_rep_id :: "string option"
  sale_date :: int
  quantity :: int
  unit_price :: rat
  discount_pct :: int

text \<open>
  What the random source delivers in one iteration of the sale loop: the float
  \<open>random.random()\<close> returns for the season test, the indices of the choices, and the
  date Faker draws: \<open>date_between d lo hi\<close> is what \<open>date_between\<close> returns when its
  arguments resolve to the days \<open>lo\<close> and \<open>hi\<close>.
\<close>

record sale_draws =
  season_random :: rat
  date_between :: "int \<Rightarrow> int \<Rightarrow> int"
  product_draw :: nat
  quantity_draw :: nat
  discount_draw :: nat
  segment_draw :: nat
  sales_rep_draw :: nat


text \<open>
  The window the sale date is drawn from:
  \<^verbatim>\<open>
  if random.random() > 0.7:
      sale_date = fake_us.date_between(start_date='-2m', end_date='today')
  else:
      sale_date = fake_us.date_between(start_date='-1y', end_date='-2m')
  \<close>
  The literal \<open>0.7\<close> is the float nearest to seven tenths.
\<close>

definition sale_date_window :: "(date_arg \<Rightarrow> int) \<Rightarrow> sale_draws \<Rightarrow> int \<times> int" where
  "sale_date_window resolve d =
     (if float_round (7 / 10) < season_random d
      then (resolve (Delta (- 2) CHR ''m''), resolve Today)
      else (resolve (Delta (- 1) CHR ''y''), resolve (Delta (- 2) CHR ''m'')))"

text \<open>\<open>random.choice(sales_employees)['employee_id'] if sales_employees else None\<close>\<close>

definition choose_sales_rep :: "nat \<Rightarrow> employee list \<Rightarrow> exn + string option" where
  "choose_sales_rep r sales_employees =
     (if sales_employees \<noteq> [] then
        (case choice r sales_employees of Inl e \<Rightarrow> Inl e | Inr emp \<Rightarrow> Inr (Some (employee_id emp)))
      else Inr None)"

text \<open>One iteration of the loop of \<open>generate_sales\<close>.\<close>

definition sale_of ::
  "(date_arg \<Rightarrow> int) \<Rightarrow> product list \<Rightarrow> employee list \<Rightarrow> sale_draws \<Rightarrow> int \<Rightarrow> exn + sale" where
  "sale_of resolve active_products sales_employees d sale_id =
     (case sale_date_window resolve d of
        (start_date, end_date) \<Rightarrow>
     (case choice (product_draw d) active_products of
        Inl e \<Rightarrow> Inl e
      | Inr p \<Rightarrow>
     (case choice (quantity_draw d) [1, 2, 3, 4, 5, 10, 25, 50] of
        Inl e \<Rightarrow> Inl e
      | Inr qty \<Rightarrow>
     (case choice (discount_draw d) [0, 5, 10, 15, 20] of
        Inl e \<Rightarrow> Inl e
      | Inr disc \<Rightarrow>
     (case choice (segment_draw d) CUSTOMER_SEGMENTS of
        Inl e \<Rightarrow> Inl e
      | Inr seg \<Rightarrow>
     (case choose_sales_rep (sales_rep_draw d) sales_employees of
        Inl e \<Rightarrow> Inl e
      | Inr rep \<Rightarrow>
          Inr \<lparr>transaction_id = ''TXN-'' @ format_0d 8 sale_id,
               product_id = product.product_id p,
               product_name = product.product_name p,
               category = product.category p,
               customer_segment = seg,
               sales_rep_id = rep,
               sale_date = date_between d start_date end_date,
               quantity = qty,
               unit_price = price p,
               discount_pct = disc\<rparr>))))))"

text \<open>
  \<open>generate_sales\<close>: the two list comprehensions, then the loop over
  \<open>range(1, num_sales + 1)\<close>.
\<close>

definition generate_sales ::
  "(date_arg \<Rightarrow> int) \<Rightarrow> (int \<Rightarrow> sale_draws) \<Rightarrow> int \<Rightarrow> employee list \<Rightarrow> product list
     \<Rightarrow> exn + sale list" where
  "generate_sales resolve rnd num_sales employees products =
     (let active_products = filter is_active products;
          sales_employees =
            filter (\<lambda>e. department e \<in> set [''Sales'', ''Customer Success'']) employees
      in for_each (\<lambda>sale_id. sale_of resolve active_products sales_employees (rnd sale_id) sale_id)
           [1..num_sales] [])"

text \<open>
  The resolution of the Faker library, \<open>_parse_date\<close>, as the number of the day counted
  from today, which is day 0. The text \<open>'today'\<close> is today. In any other text the pattern
  of the library reads the letter after the number: \<open>y\<close> is years, \<open>M\<close> is months, \<open>w\<close>
  is weeks, \<open>d\<close> is days, \<open>h\<close> is hours, \<open>m\<close> is minutes and \<open>s\<close> is seconds. Years
  and months are turned into days, 365.24 days to a year and 30.42 days to a month, and
  the result is \<open>today + timedelta(...)\<close>: a date moved by the whole days of the
  \<open>timedelta\<close>, in which a part of a day counts as the day before. So two minutes ago is
  yesterday. (The products 365.24 n and 30.42 n are taken as exact. For a letter outside
  the pattern the library raises \<open>ParseError\<close>; the generator passes none, and the
  function gives day 0 there.)
\<close>

fun parse_date :: "date_arg \<Rightarrow> int" where
  "parse_date Today = 0"
| "parse_date (Delta n u) =
     (if u = CHR ''y'' then (n * 36524) div 100
      else if u = CHR ''M'' then (n * 3042) div 100
      else if u = CHR ''w'' then n * 7
      else if u = CHR ''d'' then n
      else if u = CHR ''h'' then n div 24
      else if u = CHR ''m'' then n div 1440
      else if u = CHR ''s'' then n div 86400
      else 0)"

subsection \<open>Concrete inputs\<close>

text \<open>
  Draws for one employee of DevOps at level Senior, whose \<open>random.uniform\<close> returns the
  float 129 / 1024 above the middle of the range (112500.1259765625 for the level), and
  for one of Sales at level Junior, whose \<open>random.uniform\<close> returns the lower end; the
  employees they give. The product of the first draw and the float 1.3 is the float
  146250.16376953127, and the salary is the float nearest to 146250.16, which is
  5025117233878139 / 2 ^ 35.
\<close>

definition mid_draws :: emp_draws where
  "mid_draws = \<lparr>faker_first_name = ''Ana'', faker_last_name = ''Diaz'', department_draw = 11,
     job_level_draw = 2, location_draw = 4,
     uniform = (\<lambda>k a b. if a + 1 \<le> b then (a + b) / 2 + 129 / 1024 else a),
     manager_random = 1 / 2, manager_draw = 7\<rparr>"

definition low_draws :: emp_draws where
  "low_draws = \<lparr>faker_first_name = ''Luz'', faker_last_name = ''Mora'', department_draw = 4,
     job_level_draw = 0, location_draw = 6, uniform = (\<lambda>k a b. a),
     manager_random = 1 / 2, manager_draw = 7\<rparr>"

definition emp_tech :: employee where
  "emp_tech = \<lparr>employee_id = ''EMP-00001'', first_name = ''Ana'', last_name = ''Diaz'',
     department = ''DevOps'', job_level = ''Senior'', location = ''Madrid, Spain'',
     salary = 5025117233878139 / 34359738368, manager_id = None\<rparr>"

definition emp_plain :: employee where
  "emp_plain = \<lparr>employee_id = ''EMP-00001'', first_name = ''Luz'', last_name = ''Mora'',
     department = ''Sales'', job_level = ''Junior'', location = ''Remote'',
     salary = 50000, manager_id = None\<rparr>"

text \<open>
  Draws for a sale outside the season (the draw is 0.5), dated at the start of the window
  or at its end, and for a sale in the season (the draw is 0.9), dated at the end of the
  window; an inactive and an active product, a sales representative, and the sales they
  give.
\<close>

definition some_sale_draws :: sale_draws where
  "some_sale_draws = \<lparr>season_random = 1 / 2, date_between = (\<lambda>lo hi. lo), product_draw = 3,
     quantity_draw = 6, discount_draw = 1, segment_draw = 2, sales_rep_draw = 5\<rparr>"



definition p1 :: product where
  "p1 = \<lparr>product.product_id = ''PRD-00001'', product_name = ''Widget'', category = ''Books'',
          price = 10, is_active = False\<rparr>"

definition p2 :: product where
  "p2 = \<lparr>product.product_id = ''PRD-00002'', product_name = ''Gadget'', category = ''Sports'',
          price = 25, is_active = True\<rparr>"

definition rep1 :: employee where
  "rep1 = \<lparr>employee_id = ''EMP-00007'', first_name = ''Luz'', last_name = ''Mora'',
            department = ''Sales'', job_level = ''Senior'', location = ''Remote'',
            salary = 100000, manager_id = None\<rparr>"

definition sale1 :: sale where
  "sale1 = \<lparr>transaction_id = ''TXN-00000001'', product_id = ''PRD-00002'',
             product_name = ''Gadget'', category = ''Sports'',
             customer_segment = ''Individual'', sales_rep_id = Some ''EMP-00007'',
             sale_date = - 366, quantity = 25, unit_price = 25, discount_pct = 5\<rparr>"




section \<open>Credential resolution (setup\_gcp\_credentials)\<close>

text \<open>
  Both modules resolve their credentials with the same function, once for a BigQuery
  client and once for a Cloud Storage client. The process environment is a map from
  names to values; the file system is a parameter \<open>exists\<close>, the answer of
  \<open>os.path.exists\<close>. The Google client library is a parameter too: what each of its
  calls returns or raises.
\<close>

type_synonym env = "string \<rightharpoonup> string"

record ('info, 'cred, 'client) gcp =
  default_client :: "env \<Rightarrow> exn + 'client"
  json_loads :: "string \<Rightarrow> exn + 'info"
  from_service_account_info :: "'info \<Rightarrow> exn + 'cred"
  get_project_id :: "'info \<Rightarrow> string option"
  client_with :: "'cred \<Rightarrow> string option \<Rightarrow> exn + 'client"

text \<open>
  \<open>default_client\<close> is \<open>bigquery.Client()\<close> or \<open>storage.Client()\<close>, which finds the
  ambient credentials through the environment it is called in; \<open>client_with\<close> is
  \<open>Client(credentials=..., project=...)\<close>; \<open>get_project_id\<close> is
  \<open>cred_info.get('project_id')\<close>.
\<close>

datatype cred_line = CloudRunLine | FoundLine string | EnvJsonLine | CredError string | CredHint

record cred_world =
  environ :: env
  cred_printed :: "cred_line list"

definition cred_print :: "cred_line \<Rightarrow> cred_world \<Rightarrow> cred_world" where
  "cred_print l w = w\<lparr>cred_printed := cred_printed w @ [l]\<rparr>"

text \<open>The truth value of what \<open>os.getenv\<close> returns: set, and not the empty string.\<close>

fun truthy :: "string option \<Rightarrow> bool" where
  "truthy None = False"
| "truthy (Some s) = (s \<noteq> [])"

text \<open>The test \<open>path and os.path.exists(path)\<close> of the scan.\<close>

fun usable :: "(string \<Rightarrow> bool) \<Rightarrow> string option \<Rightarrow> bool" where
  "usable exists None = False"
| "usable exists (Some path) = (path \<noteq> [] \<and> exists path)"

text \<open>The list \<open>paths\<close> (\<open>credential_paths\<close> in the generator), in its order.\<close>

definition paths :: "env \<Rightarrow> string option list" where
  "paths e =
     [Some ''service-account-key.json'',
      Some ''./service-account-key.json'',
      e ''GOOGLE_APPLICATION_CREDENTIALS'']"

text \<open>The scan: the loop returns at the first usable path.\<close>

fun first_existing :: "(string \<Rightarrow> bool) \<Rightarrow> string option list \<Rightarrow> string option" where
  "first_existing exists [] = None"
| "first_existing exists (c # cs) = (if usable exists c then c else first_existing exists cs)"

text \<open>
  The client built from the JSON blob: in the pipeline with the project the blob names,
  in the generator without a project.
\<close>

definition json_client_bq :: "('info, 'cred, 'client) gcp \<Rightarrow> string \<Rightarrow> exn + 'client" where
  "json_client_bq lib cred_json =
     (case json_loads lib cred_json of
        Inl e \<Rightarrow> Inl e
      | Inr cred_info \<Rightarrow>
          (case from_service_account_info lib cred_info of
             Inl e \<Rightarrow> Inl e
           | Inr credentials \<Rightarrow> client_with lib credentials (get_project_id lib cred_info)))"

definition json_client_gcs :: "('info, 'cred, 'client) gcp \<Rightarrow> string \<Rightarrow> exn + 'client" where
  "json_client_gcs lib cred_json =
     (case json_loads lib cred_json of
        Inl e \<Rightarrow> Inl e
      | Inr credentials_info \<Rightarrow>
          (case from_service_account_info lib credentials_info of
             Inl e \<Rightarrow> Inl e
           | Inr credentials \<Rightarrow> client_with lib credentials None))"

text \<open>The body of the \<open>try\<close> of \<open>setup_gcp_credentials\<close> in etl\_medallion.py.\<close>

definition setup_body_bq ::
  "('info, 'cred, 'client) gcp \<Rightarrow> (string \<Rightarrow> bool) \<Rightarrow> cred_world \<Rightarrow> (exn + 'client) \<times> cred_world" where
  "setup_body_bq lib exists w =
     (if truthy (environ w ''K_SERVICE'') then
        (let w1 = cred_print CloudRunLine w in (default_client lib (environ w1), w1))
      else
        (case first_existing exists (paths (environ w)) of
           Some path \<Rightarrow>
             (let w1 = cred_print (FoundLine path) w;
                  w2 = w1\<lparr>environ := (environ w1)(''GOOGLE_APPLICATION_CREDENTIALS'' \<mapsto> path)\<rparr>
              in (default_client lib (environ w2), w2))
         | None \<Rightarrow>
             (case environ w ''GOOGLE_CREDENTIALS_JSON'' of
                None \<Rightarrow> (Inl (Exception ''No se encontraron credenciales''), w)
              | Some cred_json \<Rightarrow>
                  (if cred_json \<noteq> [] then
                     (let w1 = cred_print EnvJsonLine w in (json_client_bq lib cred_json, w1))
                   else (Inl (Exception ''No se encontraron credenciales''), w)))))"

text \<open>
  The body in data\_generator.py: the same steps; the line of the JSON branch is
  printed only after the credentials were built.
\<close>

definition setup_body_gcs ::
  "('info, 'cred, 'client) gcp \<Rightarrow> (string \<Rightarrow> bool) \<Rightarrow> cred_world \<Rightarrow> (exn + 'client) \<times> cred_world" where
  "setup_body_gcs lib exists w =
     (if truthy (environ w ''K_SERVICE'') then
        (let w1 = cred_print CloudRunLine w in (default_client lib (environ w1), w1))
      else
        (case first_existing exists (paths (environ w)) of
           Some path \<Rightarrow>
             (let w1 = cred_print (FoundLine path) w;
                  w2 = w1\<lparr>environ := (environ w1)(''GOOGLE_APPLICATION_CREDENTIALS'' \<mapsto> path)\<rparr>
              in (default_client lib (environ w2), w2))
         | None \<Rightarrow>
             (case environ w ''GOOGLE_CREDENTIALS_JSON'' of
                None \<Rightarrow> (Inl (Exception ''No se encontraron credenciales''), w)
              | Some cred_json \<Rightarrow>
                  (if cred_json \<noteq> [] then
                     (case json_loads lib cred_json of
                        Inl e \<Rightarrow> (Inl e, w)
                      | Inr credentials_info \<Rightarrow>
                          (case from_service_account_info lib credentials_info of
                             Inl e \<Rightarrow> (Inl e, w)
                           | Inr credentials \<Rightarrow>
                               (let w1 = cred_print EnvJsonLine w
                                in (client_with lib credentials None, w1))))
                   else (Inl (Exception ''No se encontraron credenciales''), w)))))"

text \<open>
  The \<open>except Exception\<close> of both functions prints the error and a hint, and raises the
  exception again.
\<close>

definition reraise :: "(exn + 'client) \<times> cred_world \<Rightarrow> (exn + 'client) \<times> cred_world" where
  "reraise r =
     (case r of
        (Inl e, w) \<Rightarrow> (Inl e, cred_print CredHint (cred_print (CredError (str e)) w))
      | (Inr client, w) \<Rightarrow> (Inr client, w))"

definition setup_gcp_credentials_bq ::
  "('info, 'cred, 'client) gcp \<Rightarrow> (string \<Rightarrow> bool) \<Rightarrow> cred_world \<Rightarrow> (exn + 'client) \<times> cred_world" where
  "setup_gcp_credentials_bq lib exists w = reraise (setup_body_bq lib exists w)"

definition setup_gcp_credentials_gcs ::
  "('info, 'cred, 'client) gcp \<Rightarrow> (string \<Rightarrow> bool) \<Rightarrow> cred_world \<Rightarrow> (exn + 'client) \<times> cred_world" where
  "setup_gcp_credentials_gcs lib exists w = reraise (setup_body_gcs lib exists w)"

text \<open>
  A client library for concrete runs: every call succeeds, and a client is the text of
  where its credentials came from.
\<close>

definition text_lib :: "(string, string, string) gcp" where
  "text_lib =
     \<lparr>default_client =
        (\<lambda>e. case e ''GOOGLE_APPLICATION_CREDENTIALS'' of
               None \<Rightarrow> Inr ''ambient''
             | Some p \<Rightarrow> Inr (''file '' @ p)),
      json_loads = (\<lambda>s. Inr s),
      from_service_account_info = (\<lambda>i. Inr i),
      get_project_id = (\<lambda>i. Some ''demo''),
      client_with = (\<lambda>c p. Inr (''json '' @ c))\<rparr>"

definition world_of :: "(string \<times> string) list \<Rightarrow> cred_world" where
  "world_of kvs = \<lparr>environ = map_of kvs, cred_printed = []\<rparr>"

section \<open>Properties of the pipeline\<close>

lemma run_query_fst: "fst (run_query bq q w) = succeeds bq (submitted w) q"
  by (simp add: run_query_def bq_query_def succeeds_def split: sum.splits)

lemma run_query_submitted: "submitted (snd (run_query bq q w)) = submitted w @ [q]"
  by (simp add: run_query_def bq_query_def print_def split: sum.splits)

lemma run_statements_submitted:
  "submitted (snd (run_statements bq qs b w)) = submitted w @ qs"
proof (induction qs arbitrary: b w)
  case Nil
  show ?case by simp
next
  case (Cons q qs)
  obtain ok w' where rq: "run_query bq q w = (ok, w')" by (cases "run_query bq q w")
  have "submitted w' = submitted w @ [q]" using run_query_submitted [of bq q w] rq by simp
  then show ?case using Cons.IH rq by simp
qed

lemma run_statements_fst:
  "fst (run_statements bq qs b w) = (b \<and> all_succeed bq (submitted w) qs)"
proof (induction qs arbitrary: b w)
  case Nil
  show ?case by simp
next
  case (Cons q qs)
  obtain ok w' where rq: "run_query bq q w = (ok, w')" by (cases "run_query bq q w")
  have s: "submitted w' = submitted w @ [q]" using run_query_submitted [of bq q w] rq by simp
  have o: "ok = succeeds bq (submitted w) q" using run_query_fst [of bq q w] rq by simp
  show ?case using Cons.IH [of "if \<not> ok then False else b" w'] rq s o by auto
qed

lemma print_submitted [simp]: "submitted (print l w) = submitted w"
  by (simp add: print_def)

lemma layer_func_unfold:
  "layer_func l bq w =
     (case run_query bq (CreateSchema l) (print (LayerStart l) w) of
        (False, w1) \<Rightarrow> (False, w1)
      | (True, w1) \<Rightarrow> run_statements bq (layer_statements l) True w1)"
  by (induction l) (simp_all add: bronze_layer_def silver_layer_def gold_layer_def)

lemma layer_func_submitted:
  "submitted (snd (layer_func l bq w)) =
     (if succeeds bq (submitted w) (CreateSchema l)
      then submitted w @ CreateSchema l # layer_statements l
      else submitted w @ [CreateSchema l])"
proof -
  obtain ok w1 where rq: "run_query bq (CreateSchema l) (print (LayerStart l) w) = (ok, w1)"
    by (cases "run_query bq (CreateSchema l) (print (LayerStart l) w)")
  have s: "submitted w1 = submitted w @ [CreateSchema l]"
    using run_query_submitted [of bq "CreateSchema l" "print (LayerStart l) w"] rq by simp
  have o: "ok = succeeds bq (submitted w) (CreateSchema l)"
    using run_query_fst [of bq "CreateSchema l" "print (LayerStart l) w"] rq by simp
  show ?thesis
    using rq s o by (cases ok) (simp_all add: layer_func_unfold run_statements_submitted)
qed

lemma layer_func_fst:
  "fst (layer_func l bq w) = all_succeed bq (submitted w) (CreateSchema l # layer_statements l)"
proof -
  obtain ok w1 where rq: "run_query bq (CreateSchema l) (print (LayerStart l) w) = (ok, w1)"
    by (cases "run_query bq (CreateSchema l) (print (LayerStart l) w)")
  have s: "submitted w1 = submitted w @ [CreateSchema l]"
    using run_query_submitted [of bq "CreateSchema l" "print (LayerStart l) w"] rq by simp
  have o: "ok = succeeds bq (submitted w) (CreateSchema l)"
    using run_query_fst [of bq "CreateSchema l" "print (LayerStart l) w"] rq by simp
  show ?thesis
    using rq s o by (cases ok) (simp_all add: layer_func_unfold run_statements_fst)
qed

lemma run_layers_failed:
  "fst (layer_func l bq w) = False \<Longrightarrow>
   submitted (snd (run_layers bq (l # ls) w)) = submitted (snd (layer_func l bq w))"
  by (cases "layer_func l bq w") (auto)

lemma print_printed [simp]: "printed (print l w) = printed w @ [l]"
  by (simp add: print_def)

lemma verify_dataset_fst: "fst (verify_dataset bq d w) = Inr ()"
  by (simp add: verify_dataset_def split: prod.splits sum.splits)

lemma verify_datasets_fst: "fst (verify_datasets bq ds w) = Inr ()"
proof (induction ds arbitrary: w)
  case Nil
  show ?case by simp
next
  case (Cons d ds)
  obtain r w' where v: "verify_dataset bq d w = (r, w')" by (cases "verify_dataset bq d w")
  have "r = Inr ()" using verify_dataset_fst [of bq d w] v by simp
  then show ?case using Cons.IH [of w'] v by simp
qed

lemma verify_results_fst: "fst (verify_results bq w) = Inr ()"
  unfolding verify_results_def by (rule verify_datasets_fst)

lemma run_etl_cases:
  "run_etl bq w =
     (case run_layers bq [Bronze, Silver, Gold] (print PipelineStart w) of
        (True, w1) \<Rightarrow> (Inr (), print PipelineCompleted (snd (verify_results bq w1)))
      | (False, w1) \<Rightarrow> (Inr (), print PipelineFailed w1))"
proof -
  obtain ok w1 where rl: "run_layers bq [Bronze, Silver, Gold] (print PipelineStart w) = (ok, w1)"
    by (cases "run_layers bq [Bronze, Silver, Gold] (print PipelineStart w)")
  obtain r w2 where v: "verify_results bq w1 = (r, w2)" by (cases "verify_results bq w1")
  have "r = Inr ()" using verify_results_fst [of bq w1] v by simp
  then show ?thesis using rl v by (cases ok) (simp_all add: run_etl_def)
qed

text \<open>
  Claim C10. \<open>run_etl\<close> returns normally, with \<open>None\<close>, whatever the warehouse answers:
  the exceptions of the statements are caught in \<open>run_query\<close> and those of the
  verification queries in \<open>verify_results\<close>. Whether a layer failed shows only in the
  last line printed: the completion line after a successful run, the failure line after
  a failed one. The returned value is the same in both cases.
\<close>

theorem run_etl_returns_none:
  "fst (run_etl bq w) = Inr () \<and>
   last (printed (snd (run_etl bq w))) =
     (if fst (run_layers bq [Bronze, Silver, Gold] (print PipelineStart w))
      then PipelineCompleted else PipelineFailed)"
  by (simp add: run_etl_cases split: prod.splits bool.splits)

theorem run_etl_returns_none_witness:
  "fst (run_etl reject_all start) = Inr () \<and>
   last (printed (snd (run_etl reject_all start))) = PipelineFailed \<and>
   fst (run_etl (\<lambda>h q. Inr []) start) = Inr () \<and>
   last (printed (snd (run_etl (\<lambda>h q. Inr []) start))) = PipelineCompleted"
proof -
  have a: "fst (run_layers reject_all [Bronze, Silver, Gold] (print PipelineStart start)) = False"
    by (simp add: bronze_layer_def run_query_def bq_query_def reject_all_def print_def start_def)
  have b: "fst (run_layers (\<lambda>h q. Inr []) [Bronze, Silver, Gold] (print PipelineStart start)) = True"
    by (simp add: bronze_layer_def silver_layer_def gold_layer_def run_query_def bq_query_def print_def start_def)
  show ?thesis
    using run_etl_returns_none [of reject_all start] run_etl_returns_none [of "\<lambda>h q. Inr []" start] a b
    by simp
qed

text \<open>
  Whatever the warehouse answers, a request to the trigger route whose body parses is
  answered with status 200: no failure of a statement reaches the handler's \<open>except\<close>.
\<close>

lemma trigger_status: "http_status (fst (trigger_etl_endpoint bq (Inr ()) w)) = 200"
proof -
  obtain r w' where e: "run_etl bq w = (r, w')" by (cases "run_etl bq w")
  have "r = Inr ()" using run_etl_cases [of bq w] e by (simp split: prod.splits bool.splits)
  then show ?thesis using e by (simp add: trigger_etl_endpoint_def)
qed

text \<open>
  Claim C2, at a concrete input: every statement is rejected by the warehouse, so the
  bronze layer fails at its \<open>CREATE SCHEMA\<close> and the run prints the failure line; the
  request body parses. The handler answers 200 with the success body that lists all
  three layers, where the claim asks for 500 with the error message and the suggestion.
\<close>

theorem trigger_success_on_failed_run:
  "fst (trigger_etl_endpoint reject_all (Inr ()) start) =
     \<lparr>http_status = 200,
      json = SuccessBody ''ETL pipeline completed successfully'' [''bronze'', ''silver'', ''gold'']\<rparr> \<and>
   submitted (snd (trigger_etl_endpoint reject_all (Inr ()) start)) = [CreateSchema Bronze] \<and>
   printed (snd (trigger_etl_endpoint reject_all (Inr ()) start)) =
     [PipelineStart, LayerStart Bronze, StmtError (CreateSchema Bronze) ''Access Denied'',
      LayerFailed Bronze, PipelineFailed]"
  by (simp add: trigger_etl_endpoint_def run_etl_def bronze_layer_def run_query_def
      bq_query_def reject_all_def print_def start_def)

text \<open>
  Claim C1 as stated fails: when the bucket lacks the employees file, the load of
  employees is rejected and the bronze layer still submits the loads of products and
  sales before it reports failure.
\<close>

theorem stage_abort_counterexample:
  "succeeds failing_load [CreateSchema Bronze] (LoadData Employees) = False \<and>
   bronze_layer failing_load start =
     (False,
      \<lparr>submitted = [CreateSchema Bronze, LoadData Employees, LoadData Products, LoadData Sales],
       printed = [LayerStart Bronze, StmtOk (CreateSchema Bronze),
                  StmtError (LoadData Employees) ''Not found: URI'',
                  StmtOk (LoadData Products), StmtOk (LoadData Sales)]\<rparr>)"
  by (simp add: succeeds_def bronze_layer_def run_query_def bq_query_def failing_load_def
      print_def start_def)

text \<open>
  Claim C1, amended. A layer aborts at once only when its \<open>CREATE SCHEMA\<close> is rejected:
  then it reports failure and submits nothing else. When the schema statement is
  accepted, the layer submits all three statements of its list, whatever each one
  answers, and reports success exactly when all three were accepted. In both cases a
  layer that reports failure is the last one the pipeline runs: no statement of a later
  layer is submitted.
\<close>

theorem stage_failure_propagation:
  "(\<not> succeeds bq (submitted w) (CreateSchema l) \<longrightarrow>
      fst (layer_func l bq w) = False \<and>
      new_statements w (snd (layer_func l bq w)) = [CreateSchema l]) \<and>
   (succeeds bq (submitted w) (CreateSchema l) \<longrightarrow>
      new_statements w (snd (layer_func l bq w)) = CreateSchema l # layer_statements l \<and>
      fst (layer_func l bq w) =
        all_succeed bq (submitted w @ [CreateSchema l]) (layer_statements l)) \<and>
   (fst (layer_func l bq w) = False \<longrightarrow>
      new_statements w (snd (run_layers bq (l # ls) w)) = new_statements w (snd (layer_func l bq w)))"
  using run_layers_failed [of l bq w ls]
  by (simp add: new_statements_def layer_func_submitted layer_func_fst)

theorem stage_failure_propagation_witness:
  "\<not> succeeds reject_all (submitted start) (CreateSchema Silver) \<and>
   fst (layer_func Silver reject_all start) = False \<and>
   new_statements start (snd (layer_func Silver reject_all start)) = [CreateSchema Silver] \<and>
   succeeds failing_load (submitted start) (CreateSchema Bronze) \<and>
   fst (layer_func Bronze failing_load start) = False \<and>
   new_statements start (snd (run_layers failing_load [Bronze, Silver, Gold] start)) =
     [CreateSchema Bronze, LoadData Employees, LoadData Products, LoadData Sales]"
proof -
  have a: "\<not> succeeds reject_all (submitted start) (CreateSchema Silver)"
    by (simp add: succeeds_def reject_all_def)
  have b: "succeeds failing_load (submitted start) (CreateSchema Bronze)"
    by (simp add: succeeds_def failing_load_def)
  have c: "all_succeed failing_load (submitted start @ [CreateSchema Bronze]) (layer_statements Bronze) = False"
    by (simp add: succeeds_def failing_load_def)
  show ?thesis
    using a b c stage_failure_propagation [of reject_all start Silver "[]"]
      stage_failure_propagation [of failing_load start Bronze "[Silver, Gold]"]
    by simp
qed

text \<open>
  Claim C3. In a run of \<open>run_etl\<close>, when the bronze layer succeeded and the silver layer
  then reports failure, the gold layer is not invoked: after the silver layer the run
  submits nothing and prints only the two failure lines, so no statement of the gold
  layer (its \<open>CREATE SCHEMA\<close> or one of its three tables) is among the statements of
  the run.
\<close>

theorem silver_failure_blocks_gold:
  assumes b: "bronze_layer bq (print PipelineStart w) = (True, w1)"
      and s: "silver_layer bq (print BlankLine w1) = (False, w2)"
  shows "submitted (snd (run_etl bq w)) = submitted w2 \<and>
         printed (snd (run_etl bq w)) = printed w2 @ [LayerFailed Silver, PipelineFailed] \<and>
         set (new_statements w (snd (run_etl bq w))) \<inter>
           set (CreateSchema Gold # layer_statements Gold) = {}"
proof -
  have fin: "run_etl bq w = (Inr (), print PipelineFailed (print (LayerFailed Silver) w2))"
    using b s by (simp add: run_etl_cases)
  have s1: "submitted w1 = submitted w @ CreateSchema Bronze # layer_statements Bronze"
    using layer_func_submitted [of Bronze bq "print PipelineStart w"]
      layer_func_fst [of Bronze bq "print PipelineStart w"] b
    by (simp split: if_splits)
  have s2: "submitted w2 = submitted w1 @ CreateSchema Silver # layer_statements Silver \<or>
            submitted w2 = submitted w1 @ [CreateSchema Silver]"
    using layer_func_submitted [of Silver bq "print BlankLine w1"] s
    by (simp split: if_splits)
  have "set (new_statements w w2) \<inter> set (CreateSchema Gold # layer_statements Gold) = {}"
    using s1 s2 by (auto simp: new_statements_def)
  then show ?thesis using fin by (simp add: new_statements_def)
qed

theorem silver_failure_blocks_gold_witness:
  "bronze_layer failing_silver (print PipelineStart start) =
     (True,
      \<lparr>submitted = [CreateSchema Bronze, LoadData Employees, LoadData Products, LoadData Sales],
        printed = [PipelineStart, LayerStart Bronze, StmtOk (CreateSchema Bronze),
                   StmtOk (LoadData Employees), StmtOk (LoadData Products),
                   StmtOk (LoadData Sales)]\<rparr>) \<and>
   silver_layer failing_silver
     (print BlankLine
       \<lparr>submitted = [CreateSchema Bronze, LoadData Employees, LoadData Products, LoadData Sales],
        printed = [PipelineStart, LayerStart Bronze, StmtOk (CreateSchema Bronze),
                   StmtOk (LoadData Employees), StmtOk (LoadData Products),
                   StmtOk (LoadData Sales)]\<rparr>) =
     (False,
      \<lparr>submitted = [CreateSchema Bronze, LoadData Employees, LoadData Products, LoadData Sales,
                     CreateSchema Silver, SilverEmployees, SilverProducts, SilverSales],
        printed = [PipelineStart, LayerStart Bronze, StmtOk (CreateSchema Bronze),
                   StmtOk (LoadData Employees), StmtOk (LoadData Products),
                   StmtOk (LoadData Sales), BlankLine, LayerStart Silver,
                   StmtOk (CreateSchema Silver), StmtOk SilverEmployees,
                   StmtError SilverProducts ''Unrecognized name: is_active'',
                   StmtOk SilverSales]\<rparr>) \<and>
   submitted (snd (run_etl failing_silver start)) =
     [CreateSchema Bronze, LoadData Employees, LoadData Products, LoadData Sales,
      CreateSchema Silver, SilverEmployees, SilverProducts, SilverSales] \<and>
   set (new_statements start (snd (run_etl failing_silver start))) \<inter>
     set (CreateSchema Gold # layer_statements Gold) = {}"
proof -
  let ?w1 = "\<lparr>submitted = [CreateSchema Bronze, LoadData Employees, LoadData Products, LoadData Sales],
        printed = [PipelineStart, LayerStart Bronze, StmtOk (CreateSchema Bronze),
                   StmtOk (LoadData Employees), StmtOk (LoadData Products),
                   StmtOk (LoadData Sales)]\<rparr>"
  let ?w2 = "\<lparr>submitted = [CreateSchema Bronze, LoadData Employees, LoadData Products, LoadData Sales,
                     CreateSchema Silver, SilverEmployees, SilverProducts, SilverSales],
        printed = [PipelineStart, LayerStart Bronze, StmtOk (CreateSchema Bronze),
                   StmtOk (LoadData Employees), StmtOk (LoadData Products),
                   StmtOk (LoadData Sales), BlankLine, LayerStart Silver,
                   StmtOk (CreateSchema Silver), StmtOk SilverEmployees,
                   StmtError SilverProducts ''Unrecognized name: is_active'',
                   StmtOk SilverSales]\<rparr>"
  have b: "bronze_layer failing_silver (print PipelineStart start) = (True, ?w1)"
    by (simp add: bronze_layer_def run_query_def bq_query_def failing_silver_def print_def start_def)
  have s: "silver_layer failing_silver (print BlankLine ?w1) = (False, ?w2)"
    by (simp add: silver_layer_def run_query_def bq_query_def failing_silver_def print_def)
  note c = silver_failure_blocks_gold [OF b s]
  have c1: "submitted (snd (run_etl failing_silver start)) =
     [CreateSchema Bronze, LoadData Employees, LoadData Products, LoadData Sales,
      CreateSchema Silver, SilverEmployees, SilverProducts, SilverSales]"
    using conjunct1 [OF c] by simp
  show ?thesis by (intro conjI b s c1 conjunct2 [OF conjunct2 [OF c]])
qed

section \<open>Properties of the generator\<close>

lemma for_each_Inr:
  "for_each body xs acc = Inr ys \<Longrightarrow>
   \<exists>zs. ys = acc @ zs \<and> length zs = length xs \<and> (\<forall>i<length xs. body (xs ! i) = Inr (zs ! i))"
proof (induction xs arbitrary: acc)
  case Nil
  then show ?case by simp
next
  case (Cons x xs)
  from Cons.prems obtain y where y: "body x = Inr y" and r: "for_each body xs (acc @ [y]) = Inr ys"
    by (auto split: sum.splits)
  from Cons.IH [OF r] obtain zs where zs: "ys = (acc @ [y]) @ zs" "length zs = length xs"
    "\<forall>i<length xs. body (xs ! i) = Inr (zs ! i)" by blast
  have "\<forall>i<length (x # xs). body ((x # xs) ! i) = Inr ((y # zs) ! i)"
    using y zs(3) by (auto simp: nth_Cons split: nat.splits)
  then show ?case using zs(1,2) by (intro exI [of _ "y # zs"]) simp
qed

lemma for_each_nth:
  assumes "for_each body xs [] = Inr ys"
  shows "length ys = length xs" and "i < length xs \<Longrightarrow> body (xs ! i) = Inr (ys ! i)"
  using for_each_Inr [OF assms] by auto

lemma for_each_total:
  "(\<And>x. x \<in> set xs \<Longrightarrow> \<exists>y. body x = Inr y) \<Longrightarrow> \<exists>ys. for_each body xs acc = Inr ys"
proof (induction xs arbitrary: acc)
  case Nil
  show ?case by simp
next
  case (Cons x xs)
  obtain y where y: "body x = Inr y" using Cons.prems [of x] by auto
  have "\<exists>ys. for_each body xs (acc @ [y]) = Inr ys"
    using Cons.IH [of "acc @ [y]"] Cons.prems by simp
  then show ?case using y by simp
qed

lemma choice_in:
  assumes "choice r xs = Inr x"
  shows "x \<in> set xs"
proof (cases xs)
  case Nil
  then show ?thesis using assms by simp
next
  case (Cons y ys)
  have "r mod length xs < length xs" using Cons by simp
  then have "xs ! (r mod length xs) \<in> set xs" by (rule nth_mem)
  moreover have "x = xs ! (r mod length xs)" using assms Cons by simp
  ultimately show ?thesis by simp
qed

lemma choice_nonempty: "xs \<noteq> [] \<Longrightarrow> \<exists>x. choice r xs = Inr x"
  by (cases xs) auto

lemma lookup_base_salary:
  "lvl \<in> set JOB_LEVELS \<Longrightarrow> \<exists>b. lookup (base_salary d) lvl = Inr b"
  by (auto simp: JOB_LEVELS_def base_salary_def)

lemma employee_of_cases:
  obtains dept lvl loc base where
    "choice (department_draw d) DEPARTMENTS = Inr dept"
    "choice (job_level_draw d) JOB_LEVELS = Inr lvl"
    "lookup (base_salary d) lvl = Inr base"
    "employee_of d i =
       Inr \<lparr>employee_id = ''EMP-'' @ format_0d 5 i,
            first_name = faker_first_name d,
            last_name = faker_last_name d,
            department = dept,
            job_level = lvl,
            location = loc,
            salary = py_round2 (float_mul base (dept_multiplier dept)),
            manager_id =
              (if 1 < i \<and> float_round (1 / 10) < manager_random d
               then Some (''EMP-'' @ format_0d 5 (randint (manager_draw d) 1 (max 1 (i - 1))))
               else None)\<rparr>"
proof -
  obtain dept where a: "choice (department_draw d) DEPARTMENTS = Inr dept"
    using choice_nonempty [of DEPARTMENTS] by (auto simp: DEPARTMENTS_def)
  obtain lvl where b: "choice (job_level_draw d) JOB_LEVELS = Inr lvl"
    using choice_nonempty [of JOB_LEVELS] by (auto simp: JOB_LEVELS_def)
  obtain loc where c: "choice (location_draw d) OFFICE_LOCATIONS = Inr loc"
    using choice_nonempty [of OFFICE_LOCATIONS] by (auto simp: OFFICE_LOCATIONS_def)
  obtain base where e: "lookup (base_salary d) lvl = Inr base"
    using lookup_base_salary [OF choice_in [OF b]] by blast
  show ?thesis
    by (rule that [OF a b e]) (simp only: employee_of_def a b c e sum.case)
qed

lemma employee_of_total: "\<exists>emp. employee_of d i = Inr emp"
  by (rule employee_of_cases [of d i]) blast

lemma employee_of_id:
  assumes "employee_of d i = Inr emp"
  shows "employee_id emp = ''EMP-'' @ format_0d 5 i"
proof (rule employee_of_cases [of d i])
  fix dept lvl loc base
  assume "employee_of d i =
       Inr \<lparr>employee_id = ''EMP-'' @ format_0d 5 i,
            first_name = faker_first_name d,
            last_name = faker_last_name d,
            department = dept,
            job_level = lvl,
            location = loc,
            salary = py_round2 (float_mul base (dept_multiplier dept)),
            manager_id =
              (if 1 < i \<and> float_round (1 / 10) < manager_random d
               then Some (''EMP-'' @ format_0d 5 (randint (manager_draw d) 1 (max 1 (i - 1))))
               else None)\<rparr>"
  then have "emp = \<lparr>employee_id = ''EMP-'' @ format_0d 5 i,
            first_name = faker_first_name d,
            last_name = faker_last_name d,
            department = dept,
            job_level = lvl,
            location = loc,
            salary = py_round2 (float_mul base (dept_multiplier dept)),
            manager_id =
              (if 1 < i \<and> float_round (1 / 10) < manager_random d
               then Some (''EMP-'' @ format_0d 5 (randint (manager_draw d) 1 (max 1 (i - 1))))
               else None)\<rparr>" using assms by simp
  then show ?thesis by simp
qed

lemma generate_employees_Inr: "\<exists>es. generate_employees rnd n = Inr es"
  unfolding generate_employees_def by (rule for_each_total) (rule employee_of_total)

lemma generate_employees_ids:
  assumes "generate_employees rnd n = Inr es"
  shows "map employee_id es = map (\<lambda>i. ''EMP-'' @ format_0d 5 i) [1..n]"
proof (rule nth_equalityI)
  have len: "length es = length [1..n]"
    using for_each_nth(1) [OF assms [unfolded generate_employees_def]] .
  then show "length (map employee_id es) = length (map (\<lambda>i. ''EMP-'' @ format_0d 5 i) [1..n])"
    by simp
  fix i assume "i < length (map employee_id es)"
  then have i: "i < length [1..n]" using len by simp
  have "employee_of (rnd ([1..n] ! i)) ([1..n] ! i) = Inr (es ! i)"
    using for_each_nth(2) [OF assms [unfolded generate_employees_def] i] .
  then show "map employee_id es ! i = map (\<lambda>i. ''EMP-'' @ format_0d 5 i) [1..n] ! i"
    using i len employee_of_id by simp
qed

lemma replicate_numeral: "replicate (numeral k) x = x # replicate (pred_numeral k) x"
  by (simp add: numeral_eq_Suc)

lemma string_value_snoc: "string_value (s @ [c]) = 10 * string_value s + (of_char c - 48)"
  by (simp add: string_value_def)

lemma digit_char_value: "n < 10 \<Longrightarrow> of_char (''0123456789'' ! n) - 48 = n"
proof -
  assume "n < 10"
  then have "n \<in> {0, 1, 2, 3, 4, 5, 6, 7, 8, 9}" by auto
  then show ?thesis by auto
qed

lemma string_value_digits: "string_value (digits n) = n"
proof (induction n rule: digits.induct)
  case (1 n)
  show ?case
  proof (cases "n < 10")
    case True
    then show ?thesis
      using digit_char_value [of n] by (subst digits.simps) (simp add: string_value_def)
  next
    case False
    have "n mod 10 < 10" by simp
    then have d: "of_char (''0123456789'' ! (n mod 10)) - 48 = n mod 10"
      by (rule digit_char_value)
    have "string_value (digits n) = 10 * string_value (digits (n div 10)) + n mod 10"
      using False d by (subst digits.simps) (simp add: string_value_snoc)
    then show ?thesis using "1.IH" False by simp
  qed
qed

lemma string_value_zeros: "string_value (replicate k CHR ''0'' @ s) = string_value s"
proof -
  have "foldl (\<lambda>a c. 10 * a + (of_char c - 48)) 0 (replicate k CHR ''0'') = (0::nat)"
    by (induction k) simp_all
  then show ?thesis by (simp add: string_value_def)
qed

lemma string_value_format: "0 \<le> i \<Longrightarrow> string_value (format_0d w i) = nat i"
  by (simp add: format_0d_def zfill_def string_value_zeros string_value_digits)

lemma format_0d_inj: "0 \<le> i \<Longrightarrow> 0 \<le> j \<Longrightarrow> format_0d w i = format_0d w j \<Longrightarrow> i = j"
  using string_value_format [of i w] string_value_format [of j w] by simp

lemma distinct_ids: "distinct (map (\<lambda>i. ''EMP-'' @ format_0d 5 i) [1..n])"
proof -
  have "inj_on (\<lambda>i. ''EMP-'' @ format_0d 5 i) (set [1..n])"
    by (rule inj_onI) (auto dest: format_0d_inj [rotated 2])
  then show ?thesis by (simp add: distinct_map)
qed

lemma length_digits: "n < 100000 \<Longrightarrow> length (digits n) \<le> 5"
proof -
  assume n: "n < 100000"
  have a: "\<And>m. m < 10 \<Longrightarrow> length (digits m) = 1"
    by (subst digits.simps) simp
  have b: "\<And>m k. length (digits (m div 10)) \<le> k \<Longrightarrow> length (digits m) \<le> Suc k"
    by (subst digits.simps) simp
  have "n div 10 div 10 div 10 div 10 < 10" using n by simp
  then have "length (digits (n div 10 div 10 div 10 div 10)) \<le> 1" using a by simp
  then have "length (digits n) \<le> Suc (Suc (Suc (Suc 1)))" by (intro b)
  then show ?thesis by simp
qed

lemma length_format_0d: "0 \<le> i \<Longrightarrow> i < 100000 \<Longrightarrow> length (format_0d 5 i) = 5"
  using length_digits [of "nat i"] by (simp add: format_0d_def zfill_def)

text \<open>
  Claim C4. For every count \<open>n\<close> the employee generator returns (it raises nothing), and
  the list it returns has exactly \<open>n\<close> records (none when \<open>n\<close> is negative) whose
  \<open>employee_id\<close> fields are, in order, \<open>EMP-\<close> followed by the numbers 1 to \<open>n\<close> in the
  format \<open>05d\<close>; the identifiers are pairwise distinct, and up to 99999 employees each
  one is \<open>EMP-\<close> and exactly five digits.
\<close>

theorem generate_employees_sequential_ids:
  "\<exists>es. generate_employees rnd n = Inr es \<and>
        length es = nat n \<and>
        map employee_id es = map (\<lambda>i. ''EMP-'' @ format_0d 5 i) [1..n] \<and>
        distinct (map employee_id es) \<and>
        (n < 100000 \<longrightarrow> (\<forall>e \<in> set es. length (employee_id e) = 9))"
proof -
  obtain es where es: "generate_employees rnd n = Inr es"
    using generate_employees_Inr by blast
  have ids: "map employee_id es = map (\<lambda>i. ''EMP-'' @ format_0d 5 i) [1..n]"
    using generate_employees_ids [OF es] .
  have len: "length es = nat n"
    using arg_cong [OF ids, of length] by simp
  have dist: "distinct (map employee_id es)"
    using ids distinct_ids by simp
  have "\<forall>e \<in> set es. length (employee_id e) = 9" if "n < 100000"
  proof
    fix e assume "e \<in> set es"
    then have "employee_id e \<in> set (map (\<lambda>i. ''EMP-'' @ format_0d 5 i) [1..n])"
      using ids by (metis image_eqI set_map)
    then obtain i where "1 \<le> i" "i \<le> n" "employee_id e = ''EMP-'' @ format_0d 5 i" by auto
    then show "length (employee_id e) = 9"
      using length_format_0d [of i] that by simp
  qed
  then show ?thesis using es ids len dist by blast
qed


theorem generate_employees_sequential_ids_witness:
  "\<exists>es. generate_employees (\<lambda>i. mid_draws) 3 = Inr es \<and> length es = 3 \<and>
        map employee_id es = [''EMP-00001'', ''EMP-00002'', ''EMP-00003''] \<and>
        distinct (map employee_id es) \<and>
        length (employee_id (es ! 2)) = 9"
proof -
  have u: "[1..3::int] = [1, 2, 3]" by (simp add: upto.simps)
  have f1: "format_0d 5 1 = ''00001''"
    by (simp add: format_0d_def zfill_def digits.simps replicate_numeral)
  have f2: "format_0d 5 2 = ''00002''"
    by (simp add: format_0d_def zfill_def digits.simps replicate_numeral)
  have f3: "format_0d 5 3 = ''00003''"
    by (simp add: format_0d_def zfill_def digits.simps replicate_numeral)
  obtain es where es: "generate_employees (\<lambda>i. mid_draws) 3 = Inr es"
    and len: "length es = nat 3"
    and ids: "map employee_id es = map (\<lambda>i. ''EMP-'' @ format_0d 5 i) [1..3]"
    and dist: "distinct (map employee_id es)"
    and width: "3 < (100000::int) \<longrightarrow> (\<forall>e \<in> set es. length (employee_id e) = 9)"
    using generate_employees_sequential_ids [of "\<lambda>i. mid_draws" 3] by (elim exE conjE)
  have n: "length es = 3" using len by simp
  then have "es ! 2 \<in> set es" by simp
  then have l: "length (employee_id (es ! 2)) = 9" using width by simp
  have m: "map employee_id es = [''EMP-00001'', ''EMP-00002'', ''EMP-00003'']"
    by (simp add: ids u f1 f2 f3)
  show ?thesis by (intro exI [of _ es] conjI es n m dist l)
qed


lemma sale_of_Inr:
  assumes "sale_of resolve aps ses d i = Inr s"
  shows "\<exists>p. choice (product_draw d) aps = Inr p \<and> sale.product_id s = product.product_id p"
    and "choose_sales_rep (sales_rep_draw d) ses = Inr (sales_rep_id s)"
    and "sale_date s = (case sale_date_window resolve d of (lo, hi) \<Rightarrow> date_between d lo hi)"
  using assms by (auto simp: sale_of_def split: sum.splits prod.splits)


lemma choose_sales_rep_Some:
  "choose_sales_rep r ses = Inr (Some x) \<Longrightarrow> \<exists>e \<in> set ses. employee_id e = x"
  by (auto simp: choose_sales_rep_def split: if_splits sum.splits dest: choice_in)

lemma choose_sales_rep_None:
  "choose_sales_rep r ses = Inr None \<Longrightarrow> ses = []"
  by (auto simp: choose_sales_rep_def split: if_splits sum.splits)


lemma generate_sales_nth:
  assumes "generate_sales resolve rnd n employees products = Inr sales"
  shows "length sales = nat n"
    and "i < length sales \<Longrightarrow>
         sale_of resolve (filter is_active products)
           (filter (\<lambda>e. department e \<in> set [''Sales'', ''Customer Success'']) employees)
           (rnd (1 + int i)) (1 + int i) = Inr (sales ! i)"
proof -
  let ?body = "\<lambda>sale_id. sale_of resolve (filter is_active products)
           (filter (\<lambda>e. department e \<in> set [''Sales'', ''Customer Success'']) employees)
           (rnd sale_id) sale_id"
  have fe: "for_each ?body [1..n] [] = Inr sales"
    using assms by (simp only: generate_sales_def Let_def)
  have len: "length sales = length [1..n]" using for_each_nth(1) [OF fe] .
  then show "length sales = nat n" by simp
  assume i: "i < length sales"
  then have i': "i < length [1..n]" using len by simp
  then have "[1..n] ! i = 1 + int i" by (simp add: nth_upto)
  then show "?body (1 + int i) = Inr (sales ! i)"
    using for_each_nth(2) [OF fe i'] by simp
qed

lemma generate_sales_mem:
  assumes "generate_sales resolve rnd n employees products = Inr sales" "s \<in> set sales"
  shows "\<exists>d i. sale_of resolve (filter is_active products)
           (filter (\<lambda>e. department e \<in> set [''Sales'', ''Customer Success'']) employees)
           d i = Inr s"
proof -
  obtain k where "k < length sales" "sales ! k = s" using assms(2) by (auto simp: in_set_conv_nth)
  then show ?thesis using generate_sales_nth(2) [OF assms(1), of k] by blast
qed

text \<open>
  Claim C6. Every sale the sale generator returns names, as \<open>product_id\<close>, the identifier
  of a product of the supplied list whose \<open>is_active\<close> flag is true; its \<open>sales_rep_id\<close>
  is the identifier of a supplied employee of the department Sales or Customer Success,
  or \<open>None\<close>, and then the supplied list has no such employee.
\<close>

theorem sale_references:
  assumes "generate_sales resolve rnd n employees products = Inr sales" and "s \<in> set sales"
  shows "(\<exists>p \<in> set products. is_active p \<and> sale.product_id s = product.product_id p) \<and>
         (case sales_rep_id s of
            Some r \<Rightarrow>
              \<exists>e \<in> set employees.
                 department e \<in> set [''Sales'', ''Customer Success''] \<and> employee_id e = r
          | None \<Rightarrow>
              \<not> (\<exists>e \<in> set employees. department e \<in> set [''Sales'', ''Customer Success'']))"
proof -
  let ?aps = "filter is_active products"
  let ?ses = "filter (\<lambda>e. department e \<in> set [''Sales'', ''Customer Success'']) employees"
  obtain d i where so: "sale_of resolve ?aps ?ses d i = Inr s"
    using generate_sales_mem [OF assms] by blast
  obtain p where p: "choice (product_draw d) ?aps = Inr p"
    "sale.product_id s = product.product_id p"
    using sale_of_Inr(1) [OF so] by blast
  have "p \<in> set ?aps" using choice_in [OF p(1)] .
  then have a: "\<exists>p \<in> set products. is_active p \<and> sale.product_id s = product.product_id p"
    using p(2) by auto
  have rep: "choose_sales_rep (sales_rep_draw d) ?ses = Inr (sales_rep_id s)"
    using sale_of_Inr(2) [OF so] .
  have b: "(case sales_rep_id s of
            Some r \<Rightarrow>
              \<exists>e \<in> set employees.
                 department e \<in> set [''Sales'', ''Customer Success''] \<and> employee_id e = r
          | None \<Rightarrow>
              \<not> (\<exists>e \<in> set employees. department e \<in> set [''Sales'', ''Customer Success'']))"
  proof (cases "sales_rep_id s")
    case None
    then have "?ses = []" using rep choose_sales_rep_None by metis
    then have "\<not> (\<exists>e \<in> set employees. department e \<in> set [''Sales'', ''Customer Success''])"
      by (simp only: filter_empty_conv) blast
    then show ?thesis using None by simp
  next
    case (Some r)
    then obtain e where "e \<in> set ?ses" "employee_id e = r"
      using rep choose_sales_rep_Some by metis
    then have "\<exists>e \<in> set employees.
                 department e \<in> set [''Sales'', ''Customer Success''] \<and> employee_id e = r"
      by (simp only: set_filter) blast
    then show ?thesis using Some by simp
  qed
  show ?thesis using a b by (rule conjI)
qed


lemma format_txn_1: "format_0d 8 1 = ''00000001''"
  by (simp add: format_0d_def zfill_def digits.simps replicate_numeral)

lemma float_seven_tenths: "float_round (7 / 10) = 3152519739159347 / 4503599627370496"
  by code_simp

lemma window_off_season: "sale_date_window parse_date some_sale_draws = (- 366, - 1)"
  by (simp add: sale_date_window_def some_sale_draws_def float_seven_tenths)



lemma sale1_generated:
  "generate_sales parse_date (\<lambda>i. some_sale_draws) 1 [rep1] [p1, p2] = Inr [sale1]"
proof -
  have aps: "filter is_active [p1, p2] = [p2]" by (simp add: p1_def p2_def)
  have ses: "filter (\<lambda>e. department e \<in> set [''Sales'', ''Customer Success'']) [rep1] = [rep1]"
    by (simp add: rep1_def)
  have u: "[1..1::int] = [1]" by (simp add: upto.simps)
  have w: "sale_date_window parse_date some_sale_draws = (- 366, - 1)"
    by (rule window_off_season)
  have so: "sale_of parse_date [p2] [rep1] some_sale_draws 1 = Inr sale1"
    by (simp add: sale_of_def w format_txn_1 choose_sales_rep_def CUSTOMER_SEGMENTS_def)
      (simp add: some_sale_draws_def p2_def rep1_def sale1_def)
  show ?thesis
    by (simp only: generate_sales_def Let_def aps ses u for_each.simps so sum.case append_Nil)
qed

theorem sale_references_witness:
  "generate_sales parse_date (\<lambda>i. some_sale_draws) 1 [rep1] [p1, p2] = Inr [sale1] \<and>
   sale1 \<in> set [sale1] \<and>
   (\<exists>p \<in> set [p1, p2]. is_active p \<and> sale.product_id sale1 = product.product_id p) \<and>
   (case sales_rep_id sale1 of
      Some r \<Rightarrow>
        \<exists>e \<in> set [rep1].
           department e \<in> set [''Sales'', ''Customer Success''] \<and> employee_id e = r
    | None \<Rightarrow>
        \<not> (\<exists>e \<in> set [rep1]. department e \<in> set [''Sales'', ''Customer Success'']))"
proof -
  have mem: "sale1 \<in> set [sale1]" by simp
  note c = sale_references [OF sale1_generated mem]
  show ?thesis
    by (intro conjI sale1_generated mem conjunct1 [OF c] conjunct2 [OF c])
qed









subsection \<open>Salaries\<close>

lemma round_half_even_of_int [simp]: "round_half_even (of_int n) = n"
  by (simp add: round_half_even_def)

lemma round_half_even_bounds: "\<lfloor>x\<rfloor> \<le> round_half_even x \<and> round_half_even x \<le> \<lfloor>x\<rfloor> + 1"
  by (simp add: round_half_even_def Let_def)

lemma round_half_even_mono:
  assumes "x \<le> y"
  shows "round_half_even x \<le> round_half_even y"
proof (cases "\<lfloor>x\<rfloor> = \<lfloor>y\<rfloor>")
  case True
  have "x - of_int \<lfloor>y\<rfloor> \<le> y - of_int \<lfloor>y\<rfloor>" using assms by simp
  then show ?thesis using True by (auto simp: round_half_even_def Let_def)
next
  case False
  then have "\<lfloor>x\<rfloor> < \<lfloor>y\<rfloor>" using floor_mono [OF assms] by simp
  then have "round_half_even x \<le> \<lfloor>y\<rfloor>" using round_half_even_bounds [of x] by simp
  then show ?thesis using round_half_even_bounds [of y] by simp
qed

lemma two_power_le_of_int: "2 ^ k \<le> n \<Longrightarrow> (2::rat) ^ k \<le> of_int n"
  by (metis of_int_le_iff of_int_numeral of_int_power)

lemma of_int_le_two_power: "n \<le> 2 ^ k \<Longrightarrow> of_int n \<le> (2::rat) ^ k"
  by (metis of_int_le_iff of_int_numeral of_int_power)

lemma floor_power_bounds:
  assumes "1 \<le> (y::rat)"
  defines "k \<equiv> nat (bitlen \<lfloor>y\<rfloor> - 1)"
  shows "2 ^ k \<le> y" and "y < 2 ^ Suc k"
proof -
  define n where "n = \<lfloor>y\<rfloor>"
  have n: "0 < n" "of_int n \<le> y" "y < of_int n + 1"
    using assms(1) floor_correct [of y] by (auto simp: n_def)
  have b: "1 \<le> bitlen n" using n(1) by (simp add: bitlen_alt_def)
  then have sk: "nat (bitlen n) = Suc k" by (simp add: k_def n_def nat_diff_distrib)
  from bitlen_bounds [OF n(1)]
  have lo: "2 ^ k \<le> n" and hi: "n + 1 \<le> 2 ^ Suc k"
    by (simp_all add: sk) (simp add: k_def n_def)
  have "(2::rat) ^ k \<le> of_int n" using lo by (rule two_power_le_of_int)
  then show "2 ^ k \<le> y" using n(2) by (rule order_trans)
  have "of_int (n + 1) \<le> (2::rat) ^ Suc k" using hi by (rule of_int_le_two_power)
  then have "of_int n + 1 \<le> (2::rat) ^ Suc k" by simp
  with n(3) show "y < 2 ^ Suc k" by (rule less_le_trans)
qed

lemma ilog2_bounds:
  assumes "0 < x"
  shows "2 powi (ilog2 x) \<le> x" and "x < 2 powi (ilog2 x + 1)"
proof -
  have "2 powi (ilog2 x) \<le> x \<and> x < 2 powi (ilog2 x + 1)"
  proof (cases "1 \<le> x")
    case True
    define k where "k = nat (bitlen \<lfloor>x\<rfloor> - 1)"
    have "0 < \<lfloor>x\<rfloor>" using True by simp
    then have "1 \<le> bitlen \<lfloor>x\<rfloor>" by (simp add: bitlen_alt_def)
    then have e: "ilog2 x = int k" using True by (simp add: ilog2_def k_def)
    have 1: "2 ^ k \<le> x" and 2: "x < 2 ^ Suc k"
      using floor_power_bounds [OF True] by (simp_all add: k_def)
    have p1: "2 powi (int k) = (2::rat) ^ k" by simp
    have p2: "2 powi (int k + 1) = (2::rat) ^ Suc k"
      by (metis of_nat_Suc power_int_of_nat add.commute)
    show ?thesis unfolding e p1 p2 using 1 2 by (rule conjI)
  next
    case False
    define y where "y = 1 / x"
    define k where "k = nat (bitlen \<lfloor>y\<rfloor> - 1)"
    have y: "1 \<le> y" "0 < y" "x = 1 / y" using False assms by (simp_all add: y_def)
    have ylo: "2 ^ k \<le> y" and yhi: "y < 2 ^ Suc k"
      using floor_power_bounds [OF y(1)] by (simp_all add: k_def)
    have "0 < \<lfloor>y\<rfloor>" using y(1) by simp
    then have "1 \<le> bitlen \<lfloor>y\<rfloor>" by (simp add: bitlen_alt_def)
    then have kk: "bitlen \<lfloor>1 / x\<rfloor> - 1 = int k" by (simp add: k_def y_def)
    have xk: "x * 2 ^ k \<le> 1"
      using ylo y(2) by (simp add: y(3) field_simps)
    have xk1: "1 < x * 2 ^ Suc k"
      using yhi y(2) by (simp add: y(3) field_simps)
    have pk: "2 powi (- int k) = 1 / (2::rat) ^ k"
      by (simp add: power_int_minus_divide)
    have pk1: "2 powi (- int k - 1) = 1 / (2::rat) ^ Suc k"
    proof -
      have "- int k - 1 = - int (Suc k)" by simp
      then show ?thesis by (simp only: power_int_minus_divide power_int_of_nat)
    qed
    have pk0: "2 powi (- int k + 1) = 2 * (1 / (2::rat) ^ k)"
    proof -
      have "(2::rat) powi (- int k + 1) = 2 powi (- int k) * 2 powi 1"
        by (rule power_int_add) simp
      then show ?thesis by (simp only: pk power_int_1_right mult.commute)
    qed
    show ?thesis
    proof (cases "x * 2 ^ k = 1")
      case True
      have e: "ilog2 x = - int k" using False True by (simp add: ilog2_def Let_def kk)
      have xe: "x = 1 / 2 ^ k" using True by (simp add: field_simps)
      have "2 powi (- int k) \<le> x" by (simp add: pk xe)
      moreover have "x < 2 powi (- int k + 1)"
      proof -
        have "0 < 1 / (2::rat) ^ k" by simp
        then have "1 / (2::rat) ^ k < 2 * (1 / 2 ^ k)" by linarith
        then show ?thesis by (simp only: pk0 xe)
      qed
      ultimately show ?thesis by (simp add: e)
    next
      case ne: False
      have e: "ilog2 x = - int k - 1" using False ne by (simp add: ilog2_def Let_def kk)
      have "2 powi (- int k - 1) \<le> x" unfolding pk1 using xk1 by (simp add: field_simps)
      moreover have "x < 2 powi (- int k - 1 + 1)"
      proof -
        have "x * 2 ^ k < 1" using xk ne by simp
        then have "x < 1 / 2 ^ k" by (simp add: field_simps)
        then show ?thesis by (simp add: pk)
      qed
      ultimately show ?thesis by (simp add: e)
    qed
  qed
  then show "2 powi (ilog2 x) \<le> x" and "x < 2 powi (ilog2 x + 1)" by simp_all
qed

lemma ilog2_mono:
  assumes "0 < x" "x \<le> y"
  shows "ilog2 x \<le> ilog2 y"
proof (rule ccontr)
  assume "\<not> ilog2 x \<le> ilog2 y"
  then have "ilog2 y + 1 \<le> ilog2 x" by simp
  then have "(2::rat) powi (ilog2 y + 1) \<le> 2 powi (ilog2 x)"
    by (rule power_int_increasing) simp
  also have "\<dots> \<le> x" using ilog2_bounds(1) [OF assms(1)] .
  also have "\<dots> \<le> y" using assms(2) .
  finally show False using ilog2_bounds(2) [of y] assms by simp
qed

lemma scaled_round_mono:
  assumes "0 < (u::rat)" "x \<le> y"
  shows "of_int (round_half_even (x / u)) * u \<le> of_int (round_half_even (y / u)) * u"
proof -
  have "x / u \<le> y / u" using assms by (simp add: divide_right_mono)
  then have "round_half_even (x / u) \<le> round_half_even (y / u)"
    by (rule round_half_even_mono)
  then have "(of_int (round_half_even (x / u)) :: rat) \<le> of_int (round_half_even (y / u))"
    by simp
  then show ?thesis using assms(1) by (simp add: mult_right_mono)
qed

lemma scaled_round_lower:
  assumes "0 < (u::rat)" "of_int n * u \<le> y"
  shows "of_int n * u \<le> of_int (round_half_even (y / u)) * u"
proof -
  have "of_int (round_half_even ((of_int n * u) / u)) * u
          \<le> of_int (round_half_even (y / u)) * u"
    using assms by (rule scaled_round_mono)
  moreover have "(of_int n * u) / u = of_int n" using assms(1) by simp
  ultimately show ?thesis by (simp only: round_half_even_of_int)
qed

lemma scaled_round_upper:
  assumes "0 < (u::rat)" "x \<le> of_int n * u"
  shows "of_int (round_half_even (x / u)) * u \<le> of_int n * u"
proof -
  have "of_int (round_half_even (x / u)) * u
          \<le> of_int (round_half_even ((of_int n * u) / u)) * u"
    using assms by (rule scaled_round_mono)
  moreover have "(of_int n * u) / u = of_int n" using assms(1) by simp
  ultimately show ?thesis by (simp only: round_half_even_of_int)
qed

lemma float_round_pos:
  "0 < x \<Longrightarrow>
   float_round x =
     of_int (round_half_even (x / 2 powi (max (ilog2 x) (- 1022) - 52))) *
       2 powi (max (ilog2 x) (- 1022) - 52)"
  by (simp add: float_round_def Let_def)

lemma power_int_split52: "(2::rat) powi e = of_int (2 ^ 52) * 2 powi (e - 52)"
proof -
  have "(2::rat) powi (52 + (e - 52)) = 2 powi 52 * 2 powi (e - 52)"
    by (rule power_int_add) simp
  moreover have "52 + (e - 52) = e" by simp
  moreover have "(2::rat) powi 52 = of_int (2 ^ 52)" by simp
  ultimately show ?thesis by simp
qed

lemma power_int_split53: "(2::rat) powi (e + 1) = of_int (2 ^ 53) * 2 powi (e - 52)"
proof -
  have "(2::rat) powi (53 + (e - 52)) = 2 powi 53 * 2 powi (e - 52)"
    by (rule power_int_add) simp
  moreover have "53 + (e - 52) = e + 1" by simp
  moreover have "(2::rat) powi 53 = of_int (2 ^ 53)" by simp
  ultimately show ?thesis by simp
qed

lemma float_round_mono:
  assumes "0 < x" "x \<le> y"
  shows "float_round x \<le> float_round y"
proof -
  define ex where "ex = max (ilog2 x) (- 1022)"
  define ey where "ey = max (ilog2 y) (- 1022)"
  have y: "0 < y" using assms by simp
  have le: "ex \<le> ey" using ilog2_mono [OF assms] by (simp add: ex_def ey_def)
  have fx: "float_round x = of_int (round_half_even (x / 2 powi (ex - 52))) * 2 powi (ex - 52)"
    using float_round_pos [OF assms(1)] by (simp only: ex_def)
  have fy: "float_round y = of_int (round_half_even (y / 2 powi (ey - 52))) * 2 powi (ey - 52)"
    using float_round_pos [OF y] by (simp only: ey_def)
  show ?thesis
  proof (cases "ex = ey")
    case True
    have "0 < (2::rat) powi (ey - 52)" by simp
    then show ?thesis unfolding fx fy True using assms(2) by (rule scaled_round_mono)
  next
    case False
    then have lt: "ex + 1 \<le> ey" using le by simp
    have "- 1022 \<le> ex" by (simp add: ex_def)
    then have "ey = ilog2 y" using lt by (simp add: ey_def)
    then have "2 powi ey \<le> y" using ilog2_bounds(1) [OF y] by simp
    then have "of_int (2 ^ 52) * 2 powi (ey - 52) \<le> y"
      by (simp only: power_int_split52 [of ey, symmetric])
    then have "of_int (2 ^ 52) * 2 powi (ey - 52) \<le> float_round y"
      unfolding fy by (intro scaled_round_lower) simp_all
    then have ylow: "2 powi ey \<le> float_round y"
      by (simp only: power_int_split52 [of ey, symmetric])
    have "ilog2 x + 1 \<le> ex + 1" by (simp add: ex_def)
    then have "(2::rat) powi (ilog2 x + 1) \<le> 2 powi (ex + 1)"
      by (rule power_int_increasing) simp
    then have "x \<le> 2 powi (ex + 1)" using ilog2_bounds(2) [OF assms(1)] by simp
    then have "x \<le> of_int (2 ^ 53) * 2 powi (ex - 52)"
      by (simp only: power_int_split53 [of ex, symmetric])
    then have "float_round x \<le> of_int (2 ^ 53) * 2 powi (ex - 52)"
      unfolding fx by (intro scaled_round_upper) simp_all
    also have "\<dots> = 2 powi (ex + 1)"
      by (simp only: power_int_split53 [of ex, symmetric])
    also have "\<dots> \<le> 2 powi ey" using lt by (rule power_int_increasing) simp
    finally show ?thesis using ylow by simp
  qed
qed

lemma generate_employees_nth:
  assumes "generate_employees rnd n = Inr es" and "i < length es"
  shows "employee_of (rnd (1 + int i)) (1 + int i) = Inr (es ! i)"
proof -
  have fe: "for_each (\<lambda>emp_id. employee_of (rnd emp_id) emp_id) [1..n] [] = Inr es"
    using assms(1) by (simp only: generate_employees_def)
  have i': "i < length [1..n]" using for_each_nth(1) [OF fe] assms(2) by simp
  then have "[1..n] ! i = 1 + int i" by (simp add: nth_upto)
  then show ?thesis using for_each_nth(2) [OF fe i'] by simp
qed

lemma round_half_even_near: "\<bar>of_int (round_half_even t) - t\<bar> \<le> 1 / 2"
proof -
  define f where "f = \<lfloor>t\<rfloor>"
  define r where "r = t - of_int f"
  have r: "0 \<le> r" "r < 1" using floor_correct [of t] by (simp_all add: r_def f_def)
  have rh: "round_half_even t =
      (if r < 1 / 2 then f else if 1 / 2 < r then f + 1 else if even f then f else f + 1)"
    by (simp only: round_half_even_def Let_def f_def r_def)
  have down: "\<bar>of_int n - t\<bar> \<le> 1 / 2" if "n = f" "r \<le> 1 / 2" for n
  proof -
    have "of_int n - t = - r" by (simp add: that(1) r_def)
    then show ?thesis using r(1) that(2) by simp
  qed
  have up: "\<bar>of_int n - t\<bar> \<le> 1 / 2" if "n = f + 1" "1 / 2 \<le> r" for n
  proof -
    have "of_int n - t = 1 - r" by (simp add: that(1) r_def)
    then show ?thesis using r(2) that(2) by simp
  qed
  consider "r < 1 / 2" | "1 / 2 < r" | "r = 1 / 2" by linarith
  then show ?thesis
  proof cases
    case 1
    then have "round_half_even t = f" by (simp only: rh if_True)
    then show ?thesis using 1 by (intro down) simp_all
  next
    case 2
    then have "\<not> r < 1 / 2" by simp
    then have "round_half_even t = f + 1" using 2 by (simp only: rh if_True if_False)
    then show ?thesis using 2 by (intro up) simp_all
  next
    case 3
    then have "round_half_even t = f \<or> round_half_even t = f + 1" by (simp add: rh)
    then show ?thesis
    proof
      assume "round_half_even t = f"
      then show ?thesis using 3 by (intro down) simp_all
    next
      assume "round_half_even t = f + 1"
      then show ?thesis using 3 by (intro up) simp_all
    qed
  qed
qed

lemma float_round_near:
  assumes "0 < q" "q < 2 ^ 19"
  shows "\<bar>float_round q - q\<bar> \<le> 1 / 2 ^ 35"
proof -
  define e where "e = max (ilog2 q) (- 1022)"
  define u :: rat where "u = 2 powi (e - 52)"
  have u0: "0 < u" by (simp add: u_def)
  have "ilog2 q < 19"
  proof (rule ccontr)
    assume "\<not> ilog2 q < 19"
    then have "19 \<le> ilog2 q" by simp
    then have "(2::rat) powi 19 \<le> 2 powi (ilog2 q)" by (rule power_int_increasing) simp
    also have "\<dots> \<le> q" using ilog2_bounds(1) [OF assms(1)] .
    finally show False using assms(2) by simp
  qed
  then have "e - 52 \<le> - 34" by (simp add: e_def)
  then have "u \<le> 2 powi (- 34)" unfolding u_def by (rule power_int_increasing) simp
  then have u1: "u \<le> 1 / 2 ^ 34" by (simp add: power_int_minus_divide)
  have fr: "float_round q = of_int (round_half_even (q / u)) * u"
    using float_round_pos [OF assms(1)] by (simp only: e_def u_def)
  define t where "t = q / u"
  have n: "\<bar>of_int (round_half_even t) - t\<bar> \<le> 1 / 2"
    by (rule round_half_even_near)
  have q: "q = t * u" using u0 by (simp add: t_def)
  have "float_round q - q = (of_int (round_half_even t) - t) * u"
    by (simp add: fr q [symmetric] t_def [symmetric] algebra_simps)
  then have "\<bar>float_round q - q\<bar> = \<bar>of_int (round_half_even t) - t\<bar> * u"
    using u0 by (simp add: abs_mult)
  also have "\<dots> \<le> 1 / 2 * u" using n u0 by (simp add: mult_right_mono)
  also have "\<dots> \<le> 1 / 2 * (1 / 2 ^ 34)" using u1 by simp
  finally show ?thesis by simp
qed

lemma salary_bounds:
  assumes ok_lo: "bound_ok m lo A" and ok_hi: "bound_ok m hi B"
    and lo: "lo \<le> base" and hi: "base \<le> hi"
  shows "A \<le> py_round2 (float_mul base m) \<and> py_round2 (float_mul base m) \<le> B"
    and "A \<le> of_int (round_half_even (float_mul base m * 100)) / 100 \<and>
         of_int (round_half_even (float_mul base m * 100)) / 100 \<le> B"
proof -
  from ok_lo have a: "float_round (lo * m) = A" "of_int (round_half_even (A * 100)) / 100 = A"
    "float_round A = A" "0 < A" "0 < lo" "0 < m"
    by (simp_all add: bound_ok_def)
  from ok_hi have b: "float_round (hi * m) = B" "of_int (round_half_even (B * 100)) / 100 = B"
    "float_round B = B"
    by (simp_all add: bound_ok_def)
  define x where "x = float_mul base m"
  define q :: rat where "q = of_int (round_half_even (x * 100)) / 100"
  have p1: "0 < lo * m" using a(5,6) by simp
  have p2: "0 < base * m" using a(5,6) lo by simp
  have l1: "lo * m \<le> base * m" using lo a(6) by (simp add: mult_right_mono)
  have l2: "base * m \<le> hi * m" using hi a(6) by (simp add: mult_right_mono)
  have x1: "A \<le> x" using float_round_mono [OF p1 l1] by (simp add: a(1) x_def float_mul_def)
  have x2: "x \<le> B" using float_round_mono [OF p2 l2] by (simp add: b(1) x_def float_mul_def)
  have "round_half_even (A * 100) \<le> round_half_even (x * 100)"
    using x1 by (intro round_half_even_mono) simp
  then have "(of_int (round_half_even (A * 100)) :: rat) / 100 \<le> q"
    by (simp add: q_def)
  then have q1: "A \<le> q" by (simp only: a(2))
  have "round_half_even (x * 100) \<le> round_half_even (B * 100)"
    using x2 by (intro round_half_even_mono) simp
  then have "q \<le> (of_int (round_half_even (B * 100)) :: rat) / 100"
    by (simp add: q_def)
  then have q2: "q \<le> B" by (simp only: b(2))
  have q0: "0 < q" using a(4) q1 by simp
  have r1: "A \<le> float_round q" using float_round_mono [OF a(4) q1] by (simp only: a(3))
  have r2: "float_round q \<le> B" using float_round_mono [OF q0 q2] by (simp only: b(3))
  have "py_round2 (float_mul base m) = float_round q" by (simp only: py_round2_def q_def x_def)
  then show "A \<le> py_round2 (float_mul base m) \<and> py_round2 (float_mul base m) \<le> B"
    using r1 r2 by simp
  show "A \<le> of_int (round_half_even (float_mul base m * 100)) / 100 \<and>
        of_int (round_half_even (float_mul base m * 100)) / 100 \<le> B"
    using q1 q2 by (simp only: q_def x_def)
qed

lemma salary_near:
  assumes ok_lo: "bound_ok m lo A" and ok_hi: "bound_ok m hi B"
    and lo: "lo \<le> base" and hi: "base \<le> hi" and B: "B < 2 ^ 19"
  shows "\<bar>py_round2 (float_mul base m) -
           of_int (round_half_even (float_mul base m * 100)) / 100\<bar> \<le> 1 / 2 ^ 35"
proof -
  define q :: rat where "q = of_int (round_half_even (float_mul base m * 100)) / 100"
  have "0 < A" using ok_lo by (simp add: bound_ok_def)
  moreover have "A \<le> q \<and> q \<le> B"
    using salary_bounds(2) [OF ok_lo ok_hi lo hi] by (simp only: q_def)
  ultimately have "0 < q" "q < 2 ^ 19" using B by simp_all
  then have "\<bar>float_round q - q\<bar> \<le> 1 / 2 ^ 35" by (rule float_round_near)
  then show ?thesis by (simp only: py_round2_def q_def)
qed

lemma bound_plain:
  "bound_ok 1 50000 50000" "bound_ok 1 70000 70000" "bound_ok 1 95000 95000"
  "bound_ok 1 130000 130000" "bound_ok 1 120000 120000" "bound_ok 1 160000 160000"
  "bound_ok 1 140000 140000" "bound_ok 1 180000 180000" "bound_ok 1 170000 170000"
  "bound_ok 1 220000 220000" "bound_ok 1 200000 200000" "bound_ok 1 350000 350000"
  by code_simp+

lemma bound_tech:
  "bound_ok (float_round (13 / 10)) 50000 65000"
  "bound_ok (float_round (13 / 10)) 70000 91000"
  "bound_ok (float_round (13 / 10)) 95000 123500"
  "bound_ok (float_round (13 / 10)) 130000 169000"
  "bound_ok (float_round (13 / 10)) 120000 156000"
  "bound_ok (float_round (13 / 10)) 160000 208000"
  "bound_ok (float_round (13 / 10)) 140000 182000"
  "bound_ok (float_round (13 / 10)) 180000 234000"
  "bound_ok (float_round (13 / 10)) 170000 221000"
  "bound_ok (float_round (13 / 10)) 220000 286000"
  "bound_ok (float_round (13 / 10)) 200000 260000"
  "bound_ok (float_round (13 / 10)) 350000 455000"
  by code_simp+

lemma level_salary:
  assumes draw: "lookup (base_salary d) lvl = Inr (uniform d k lo hi)"
    and row: "(lvl, k, lo, hi) \<in> set base_ranges"
    and le: "lo \<le> hi" and top: "hi \<le> 350000"
    and plain: "bound_ok 1 lo lo" "bound_ok 1 hi hi"
    and tech: "bound_ok (float_round (13 / 10)) lo (13 / 10 * lo)"
      "bound_ok (float_round (13 / 10)) hi (13 / 10 * hi)"
    and base: "lookup (base_salary d) lvl = Inr base"
  shows "\<exists>k lo hi. (lvl, k, lo, hi) \<in> set base_ranges \<and> base = uniform d k lo hi \<and>
           (uniform_ok d \<longrightarrow>
             (if dept \<in> set tech_departments
              then 13 / 10 * lo \<le> py_round2 (float_mul base (dept_multiplier dept)) \<and>
                   py_round2 (float_mul base (dept_multiplier dept)) \<le> 13 / 10 * hi
              else lo \<le> py_round2 (float_mul base (dept_multiplier dept)) \<and>
                   py_round2 (float_mul base (dept_multiplier dept)) \<le> hi) \<and>
             \<bar>py_round2 (float_mul base (dept_multiplier dept)) -
                of_int (round_half_even (float_mul base (dept_multiplier dept) * 100)) / 100\<bar>
               \<le> 1 / 2 ^ 35)"
proof -
  have b: "base = uniform d k lo hi" using draw base by simp
  have t1: "hi < 2 ^ 19" using top by simp
  have t2: "13 / 10 * hi < 2 ^ 19" using top by simp
  have bounds: "(if dept \<in> set tech_departments
              then 13 / 10 * lo \<le> py_round2 (float_mul base (dept_multiplier dept)) \<and>
                   py_round2 (float_mul base (dept_multiplier dept)) \<le> 13 / 10 * hi
              else lo \<le> py_round2 (float_mul base (dept_multiplier dept)) \<and>
                   py_round2 (float_mul base (dept_multiplier dept)) \<le> hi) \<and>
             \<bar>py_round2 (float_mul base (dept_multiplier dept)) -
                of_int (round_half_even (float_mul base (dept_multiplier dept) * 100)) / 100\<bar>
               \<le> 1 / 2 ^ 35"
    if ok: "uniform_ok d"
  proof -
    have u: "lo \<le> base" "base \<le> hi" using ok le by (simp_all add: uniform_ok_def b)
    show ?thesis
    proof (cases "dept \<in> set tech_departments")
      case True
      then have m: "dept_multiplier dept = float_round (13 / 10)"
        by (simp add: dept_multiplier_def tech_departments_def)
      show ?thesis
        using True salary_bounds(1) [OF tech u] salary_near [OF tech u t2]
        by (simp only: m if_True)
    next
      case False
      then have m: "dept_multiplier dept = 1"
        by (simp add: dept_multiplier_def tech_departments_def)
      show ?thesis
        using False salary_bounds(1) [OF plain u] salary_near [OF plain u t1]
        by (simp only: m if_False)
    qed
  qed
  show ?thesis using row b bounds by blast
qed

lemma level_cases:
  assumes "lvl \<in> set JOB_LEVELS" and "lookup (base_salary d) lvl = Inr base"
  shows "\<exists>k lo hi. (lvl, k, lo, hi) \<in> set base_ranges \<and> base = uniform d k lo hi \<and>
           (uniform_ok d \<longrightarrow>
             (if dept \<in> set tech_departments
              then 13 / 10 * lo \<le> py_round2 (float_mul base (dept_multiplier dept)) \<and>
                   py_round2 (float_mul base (dept_multiplier dept)) \<le> 13 / 10 * hi
              else lo \<le> py_round2 (float_mul base (dept_multiplier dept)) \<and>
                   py_round2 (float_mul base (dept_multiplier dept)) \<le> hi) \<and>
             \<bar>py_round2 (float_mul base (dept_multiplier dept)) -
                of_int (round_half_even (float_mul base (dept_multiplier dept) * 100)) / 100\<bar>
               \<le> 1 / 2 ^ 35)"
proof -
  have "lvl = ''Junior'' \<or> lvl = ''Mid-Level'' \<or> lvl = ''Senior'' \<or> lvl = ''Lead'' \<or>
        lvl = ''Manager'' \<or> lvl = ''Director'' \<or> lvl = ''VP''"
    using assms(1) by (simp add: JOB_LEVELS_def)
  then show ?thesis
  proof (elim disjE)
    assume l: "lvl = ''Junior''"
    show ?thesis
      using assms(2) unfolding l
      by (intro level_salary [where k = 0 and lo = 50000 and hi = 70000])
        (simp_all add: base_salary_def base_ranges_def bound_plain bound_tech)
  next
    assume l: "lvl = ''Mid-Level''"
    show ?thesis
      using assms(2) unfolding l
      by (intro level_salary [where k = 1 and lo = 70000 and hi = 95000])
        (simp_all add: base_salary_def base_ranges_def bound_plain bound_tech)
  next
    assume l: "lvl = ''Senior''"
    show ?thesis
      using assms(2) unfolding l
      by (intro level_salary [where k = 2 and lo = 95000 and hi = 130000])
        (simp_all add: base_salary_def base_ranges_def bound_plain bound_tech)
  next
    assume l: "lvl = ''Lead''"
    show ?thesis
      using assms(2) unfolding l
      by (intro level_salary [where k = 3 and lo = 120000 and hi = 160000])
        (simp_all add: base_salary_def base_ranges_def bound_plain bound_tech)
  next
    assume l: "lvl = ''Manager''"
    show ?thesis
      using assms(2) unfolding l
      by (intro level_salary [where k = 4 and lo = 140000 and hi = 180000])
        (simp_all add: base_salary_def base_ranges_def bound_plain bound_tech)
  next
    assume l: "lvl = ''Director''"
    show ?thesis
      using assms(2) unfolding l
      by (intro level_salary [where k = 5 and lo = 170000 and hi = 220000])
        (simp_all add: base_salary_def base_ranges_def bound_plain bound_tech)
  next
    assume l: "lvl = ''VP''"
    show ?thesis
      using assms(2) unfolding l
      by (intro level_salary [where k = 6 and lo = 200000 and hi = 350000])
        (simp_all add: base_salary_def base_ranges_def bound_plain bound_tech)
  qed
qed

text \<open>
  Claim C5. The salary of every generated employee is the draw of \<open>random.uniform\<close> for
  the employee's job level, from that level's base range, multiplied as a float by the
  float 1.3 when the department is Engineering, Data Science or DevOps and by 1.0
  otherwise, and rounded to two decimals: there is a whole number of cents, at most half
  a cent away from the product, and the salary is the float nearest to it. Given the
  contract of \<open>random.uniform\<close>, the salary of an employee of another department lies
  within the base range of the level, the salary of an employee of one of the three
  departments lies between 1.3 times its lower end and 1.3 times its upper end, and the
  salary is at most \<open>2 ^ - 35\<close> away from the whole number of cents.
\<close>

theorem salary_in_level_range:
  assumes "generate_employees rnd n = Inr es" and "i < length es"
  shows "\<exists>k lo hi cents.
           (job_level (es ! i), k, lo, hi) \<in> set base_ranges \<and>
           salary (es ! i) =
             py_round2 (float_mul (uniform (rnd (1 + int i)) k lo hi)
               (if department (es ! i) \<in> set tech_departments then float_round (13 / 10) else 1)) \<and>
           \<bar>float_mul (uniform (rnd (1 + int i)) k lo hi)
               (if department (es ! i) \<in> set tech_departments then float_round (13 / 10) else 1)
              * 100 - of_int cents\<bar> \<le> 1 / 2 \<and>
           salary (es ! i) = float_round (of_int cents / 100) \<and>
           (uniform_ok (rnd (1 + int i)) \<longrightarrow>
             (if department (es ! i) \<in> set tech_departments
              then 13 / 10 * lo \<le> salary (es ! i) \<and> salary (es ! i) \<le> 13 / 10 * hi
              else lo \<le> salary (es ! i) \<and> salary (es ! i) \<le> hi) \<and>
             \<bar>salary (es ! i) - of_int cents / 100\<bar> \<le> 1 / 2 ^ 35)"
proof (rule employee_of_cases [of "rnd (1 + int i)" "1 + int i"])
  let ?d = "rnd (1 + int i)"
  fix dept lvl loc base
  assume lvl: "choice (job_level_draw ?d) JOB_LEVELS = Inr lvl"
    and base: "lookup (base_salary ?d) lvl = Inr base"
    and emp: "employee_of ?d (1 + int i) =
       Inr \<lparr>employee_id = ''EMP-'' @ format_0d 5 (1 + int i),
            first_name = faker_first_name ?d,
            last_name = faker_last_name ?d,
            department = dept,
            job_level = lvl,
            location = loc,
            salary = py_round2 (float_mul base (dept_multiplier dept)),
            manager_id =
              (if 1 < 1 + int i \<and> float_round (1 / 10) < manager_random ?d
               then Some (''EMP-'' @ format_0d 5 (randint (manager_draw ?d) 1 (max 1 (1 + int i - 1))))
               else None)\<rparr>"
  have "employee_of ?d (1 + int i) = Inr (es ! i)"
    using generate_employees_nth [OF assms] .
  then have e: "es ! i = \<lparr>employee_id = ''EMP-'' @ format_0d 5 (1 + int i),
            first_name = faker_first_name ?d,
            last_name = faker_last_name ?d,
            department = dept,
            job_level = lvl,
            location = loc,
            salary = py_round2 (float_mul base (dept_multiplier dept)),
            manager_id =
              (if 1 < 1 + int i \<and> float_round (1 / 10) < manager_random ?d
               then Some (''EMP-'' @ format_0d 5 (randint (manager_draw ?d) 1 (max 1 (1 + int i - 1))))
               else None)\<rparr>"
    using emp by simp
  have f: "job_level (es ! i) = lvl" "department (es ! i) = dept"
    "salary (es ! i) = py_round2 (float_mul base (dept_multiplier dept))"
    by (simp_all add: e)
  have m: "dept_multiplier dept = (if dept \<in> set tech_departments then float_round (13 / 10) else 1)"
    by (simp add: dept_multiplier_def tech_departments_def)
  define cents where "cents = round_half_even (float_mul base (dept_multiplier dept) * 100)"
  from level_cases [OF choice_in [OF lvl] base, of dept]
  obtain k lo hi where r: "(lvl, k, lo, hi) \<in> set base_ranges" "base = uniform ?d k lo hi"
    "uniform_ok ?d \<longrightarrow>
       (if dept \<in> set tech_departments
        then 13 / 10 * lo \<le> py_round2 (float_mul base (dept_multiplier dept)) \<and>
             py_round2 (float_mul base (dept_multiplier dept)) \<le> 13 / 10 * hi
        else lo \<le> py_round2 (float_mul base (dept_multiplier dept)) \<and>
             py_round2 (float_mul base (dept_multiplier dept)) \<le> hi) \<and>
       \<bar>py_round2 (float_mul base (dept_multiplier dept)) - of_int cents / 100\<bar> \<le> 1 / 2 ^ 35"
    unfolding cents_def by blast
  have s: "salary (es ! i) =
             py_round2 (float_mul (uniform ?d k lo hi)
               (if department (es ! i) \<in> set tech_departments then float_round (13 / 10) else 1))"
    by (simp only: f m r(2))
  have near: "\<bar>float_mul (uniform ?d k lo hi)
               (if department (es ! i) \<in> set tech_departments then float_round (13 / 10) else 1)
              * 100 - of_int cents\<bar> \<le> 1 / 2"
    using round_half_even_near [of "float_mul base (dept_multiplier dept) * 100"]
    by (simp only: cents_def f m r(2) abs_minus_commute)
  have fl: "salary (es ! i) = float_round (of_int cents / 100)"
    by (simp only: f py_round2_def cents_def)
  show ?thesis
  proof (intro exI conjI)
    show "(job_level (es ! i), k, lo, hi) \<in> set base_ranges" using r(1) by (simp only: f)
    show "salary (es ! i) =
             py_round2 (float_mul (uniform ?d k lo hi)
               (if department (es ! i) \<in> set tech_departments then float_round (13 / 10) else 1))"
      by (rule s)
    show "\<bar>float_mul (uniform ?d k lo hi)
               (if department (es ! i) \<in> set tech_departments then float_round (13 / 10) else 1)
              * 100 - of_int cents\<bar> \<le> 1 / 2"
      by (rule near)
    show "salary (es ! i) = float_round (of_int cents / 100)" by (rule fl)
    show "uniform_ok ?d \<longrightarrow>
             (if department (es ! i) \<in> set tech_departments
              then 13 / 10 * lo \<le> salary (es ! i) \<and> salary (es ! i) \<le> 13 / 10 * hi
              else lo \<le> salary (es ! i) \<and> salary (es ! i) \<le> hi) \<and>
             \<bar>salary (es ! i) - of_int cents / 100\<bar> \<le> 1 / 2 ^ 35"
      using r(3) by (simp only: f)
  qed
qed

lemma format_emp_1: "format_0d 5 1 = ''00001''"
  by (simp add: format_0d_def zfill_def digits.simps replicate_numeral)

lemma salary_values:
  "float_mul (115200129 / 1024) (float_round (13 / 10)) = 5025117363398247 / 34359738368"
  "py_round2 (5025117363398247 / 34359738368) = 5025117233878139 / 34359738368"
  "float_round (14625016 / 100) = 5025117233878139 / 34359738368"
  "py_round2 (float_mul 50000 1) = 50000"
  by code_simp+

lemma mid_draw_senior: "uniform mid_draws 2 95000 130000 = 115200129 / 1024"
  by (simp add: mid_draws_def)

lemma emp_tech_generated: "generate_employees (\<lambda>i. mid_draws) 1 = Inr [emp_tech]"
proof -
  have u: "[1..1::int] = [1]" by (simp add: upto.simps)
  have d: "choice (department_draw mid_draws) DEPARTMENTS = Inr ''DevOps''"
    by (simp add: mid_draws_def DEPARTMENTS_def)
  have l: "choice (job_level_draw mid_draws) JOB_LEVELS = Inr ''Senior''"
    by (simp add: mid_draws_def JOB_LEVELS_def)
  have o: "choice (location_draw mid_draws) OFFICE_LOCATIONS = Inr ''Madrid, Spain''"
    by (simp add: mid_draws_def OFFICE_LOCATIONS_def)
  have b: "lookup (base_salary mid_draws) ''Senior'' = Inr (115200129 / 1024)"
    by (simp add: base_salary_def mid_draw_senior)
  have m: "dept_multiplier ''DevOps'' = float_round (13 / 10)"
    by (simp add: dept_multiplier_def)
  have e: "employee_of mid_draws 1 = Inr emp_tech"
    by (simp add: employee_of_def d l o b m salary_values format_emp_1 emp_tech_def)
      (simp add: mid_draws_def)
  show ?thesis
    by (simp only: generate_employees_def u for_each.simps e sum.case append_Nil)
qed

lemma emp_plain_generated: "generate_employees (\<lambda>i. low_draws) 1 = Inr [emp_plain]"
proof -
  have u: "[1..1::int] = [1]" by (simp add: upto.simps)
  have d: "choice (department_draw low_draws) DEPARTMENTS = Inr ''Sales''"
    by (simp add: low_draws_def DEPARTMENTS_def)
  have l: "choice (job_level_draw low_draws) JOB_LEVELS = Inr ''Junior''"
    by (simp add: low_draws_def JOB_LEVELS_def)
  have o: "choice (location_draw low_draws) OFFICE_LOCATIONS = Inr ''Remote''"
    by (simp add: low_draws_def OFFICE_LOCATIONS_def)
  have b: "lookup (base_salary low_draws) ''Junior'' = Inr 50000"
    by (simp add: base_salary_def low_draws_def)
  have m: "dept_multiplier ''Sales'' = 1"
    by (simp add: dept_multiplier_def)
  have e: "employee_of low_draws 1 = Inr emp_plain"
    by (simp add: employee_of_def d l o b m salary_values format_emp_1 emp_plain_def)
      (simp add: low_draws_def)
  show ?thesis
    by (simp only: generate_employees_def u for_each.simps e sum.case append_Nil)
qed

theorem salary_in_level_range_witness:
  "generate_employees (\<lambda>i. mid_draws) 1 = Inr [emp_tech] \<and> uniform_ok mid_draws \<and>
   department emp_tech \<in> set tech_departments \<and>
   13 / 10 * 95000 \<le> salary emp_tech \<and> salary emp_tech \<le> 13 / 10 * 130000 \<and>
   float_mul (uniform mid_draws 2 95000 130000) (float_round (13 / 10)) =
     5025117363398247 / 34359738368 \<and>
   salary emp_tech = float_round (14625016 / 100) \<and>
   salary emp_tech \<noteq> float_mul (uniform mid_draws 2 95000 130000) (float_round (13 / 10)) \<and>
   \<bar>salary emp_tech - 14625016 / 100\<bar> \<le> 1 / 2 ^ 35 \<and>
   generate_employees (\<lambda>i. low_draws) 1 = Inr [emp_plain] \<and> uniform_ok low_draws \<and>
   department emp_plain \<notin> set tech_departments \<and>
   50000 \<le> salary emp_plain \<and> salary emp_plain \<le> 70000"
proof -
  have i: "0 < length [emp_tech]" "0 < length [emp_plain]" by simp_all
  have "a \<le> (a + b) / 2 + 129 / 1024 \<and> (a + b) / 2 + 129 / 1024 \<le> b"
    if "a + 1 \<le> b" for a b :: rat
  proof -
    have h: "(a + b) / 2 = a / 2 + b / 2" by (simp add: add_divide_distrib)
    show ?thesis unfolding h using that by linarith
  qed
  then have u1: "uniform_ok mid_draws" by (simp add: uniform_ok_def mid_draws_def)
  have u2: "uniform_ok low_draws" by (simp add: uniform_ok_def low_draws_def)
  have t1: "department emp_tech \<in> set tech_departments"
    by (simp add: emp_tech_def tech_departments_def)
  have t2: "department emp_plain \<notin> set tech_departments"
    by (simp add: emp_plain_def tech_departments_def)
  have j1: "job_level emp_tech = ''Senior''" by (simp add: emp_tech_def)
  have j2: "job_level emp_plain = ''Junior''" by (simp add: emp_plain_def)
  have p: "float_mul (uniform mid_draws 2 95000 130000) (float_round (13 / 10)) =
     5025117363398247 / 34359738368"
    by (simp only: mid_draw_senior salary_values)
  have "\<exists>k lo hi cents. (job_level emp_tech, k, lo, hi) \<in> set base_ranges \<and>
           salary emp_tech =
             py_round2 (float_mul (uniform mid_draws k lo hi)
               (if department emp_tech \<in> set tech_departments then float_round (13 / 10) else 1)) \<and>
           \<bar>float_mul (uniform mid_draws k lo hi)
               (if department emp_tech \<in> set tech_departments then float_round (13 / 10) else 1)
              * 100 - of_int cents\<bar> \<le> 1 / 2 \<and>
           salary emp_tech = float_round (of_int cents / 100) \<and>
           (uniform_ok mid_draws \<longrightarrow>
             (if department emp_tech \<in> set tech_departments
              then 13 / 10 * lo \<le> salary emp_tech \<and> salary emp_tech \<le> 13 / 10 * hi
              else lo \<le> salary emp_tech \<and> salary emp_tech \<le> hi) \<and>
             \<bar>salary emp_tech - of_int cents / 100\<bar> \<le> 1 / 2 ^ 35)"
    using salary_in_level_range [OF emp_tech_generated i(1)]
    by (simp only: nth_Cons_0 of_nat_0 add_0_right)
  then obtain k lo hi cents where a: "(job_level emp_tech, k, lo, hi) \<in> set base_ranges"
    "\<bar>float_mul (uniform mid_draws k lo hi)
               (if department emp_tech \<in> set tech_departments then float_round (13 / 10) else 1)
              * 100 - of_int cents\<bar> \<le> 1 / 2"
    "salary emp_tech = float_round (of_int cents / 100)"
    "uniform_ok mid_draws \<longrightarrow>
       (if department emp_tech \<in> set tech_departments
        then 13 / 10 * lo \<le> salary emp_tech \<and> salary emp_tech \<le> 13 / 10 * hi
        else lo \<le> salary emp_tech \<and> salary emp_tech \<le> hi) \<and>
       \<bar>salary emp_tech - of_int cents / 100\<bar> \<le> 1 / 2 ^ 35"
    by blast
  have row: "k = 2 \<and> lo = 95000 \<and> hi = 130000"
    using a(1) unfolding j1 by (simp add: base_ranges_def)
  have "\<bar>float_mul (uniform mid_draws 2 95000 130000) (float_round (13 / 10)) * 100
          - of_int cents\<bar> \<le> 1 / 2"
    using a(2) t1 row by simp
  then have "\<bar>(5025117363398247 / 34359738368::rat) * 100 - of_int cents\<bar> \<le> 1 / 2"
    by (simp only: p)
  then have "(14625015::rat) < of_int cents" "of_int cents < (14625017::rat)" by linarith+
  then have "14625015 < cents" "cents < 14625017" by linarith+
  then have c: "cents = 14625016" by simp
  have r1: "13 / 10 * 95000 \<le> salary emp_tech \<and> salary emp_tech \<le> 13 / 10 * 130000"
    using a(4) u1 t1 row by simp
  have r3: "salary emp_tech = float_round (14625016 / 100)" using a(3) by (simp add: c)
  have r4: "salary emp_tech \<noteq> float_mul (uniform mid_draws 2 95000 130000) (float_round (13 / 10))"
    unfolding p by (simp add: emp_tech_def)
  have r5: "\<bar>salary emp_tech - 14625016 / 100\<bar> \<le> 1 / 2 ^ 35"
    using a(4) u1 by (simp add: c)
  have "\<exists>k lo hi cents. (job_level emp_plain, k, lo, hi) \<in> set base_ranges \<and>
           salary emp_plain =
             py_round2 (float_mul (uniform low_draws k lo hi)
               (if department emp_plain \<in> set tech_departments then float_round (13 / 10) else 1)) \<and>
           \<bar>float_mul (uniform low_draws k lo hi)
               (if department emp_plain \<in> set tech_departments then float_round (13 / 10) else 1)
              * 100 - of_int cents\<bar> \<le> 1 / 2 \<and>
           salary emp_plain = float_round (of_int cents / 100) \<and>
           (uniform_ok low_draws \<longrightarrow>
             (if department emp_plain \<in> set tech_departments
              then 13 / 10 * lo \<le> salary emp_plain \<and> salary emp_plain \<le> 13 / 10 * hi
              else lo \<le> salary emp_plain \<and> salary emp_plain \<le> hi) \<and>
             \<bar>salary emp_plain - of_int cents / 100\<bar> \<le> 1 / 2 ^ 35)"
    using salary_in_level_range [OF emp_plain_generated i(2)]
    by (simp only: nth_Cons_0 of_nat_0 add_0_right)
  then obtain k' lo' hi' cents' where b: "(job_level emp_plain, k', lo', hi') \<in> set base_ranges"
    "uniform_ok low_draws \<longrightarrow>
       (if department emp_plain \<in> set tech_departments
        then 13 / 10 * lo' \<le> salary emp_plain \<and> salary emp_plain \<le> 13 / 10 * hi'
        else lo' \<le> salary emp_plain \<and> salary emp_plain \<le> hi') \<and>
       \<bar>salary emp_plain - of_int cents' / 100\<bar> \<le> 1 / 2 ^ 35"
    by blast
  have "lo' = 50000 \<and> hi' = 70000" using b(1) unfolding j2 by (simp add: base_ranges_def)
  then have r2: "50000 \<le> salary emp_plain \<and> salary emp_plain \<le> 70000"
    using b(2) u2 t2 by simp
  show ?thesis
    by (intro conjI emp_tech_generated u1 t1 conjunct1 [OF r1] conjunct2 [OF r1] p r3 r4 r5
        emp_plain_generated u2 t2 conjunct1 [OF r2] conjunct2 [OF r2])
qed

section \<open>Properties of the credential resolution\<close>

lemma reraise_fst [simp]: "fst (reraise r) = fst r"
  by (cases r) (simp add: reraise_def split: sum.splits)

lemma cred_print_environ [simp]: "environ (cred_print l w) = environ w"
  by (simp add: cred_print_def)

lemma setup_bq_cases:
  fixes lib :: "('info, 'cred, 'client) gcp"
  shows "(truthy (environ w ''K_SERVICE'') \<longrightarrow>
            fst (setup_gcp_credentials_bq lib exists w) = default_client lib (environ w)) \<and>
         (\<not> truthy (environ w ''K_SERVICE'') \<and> first_existing exists (paths (environ w)) = Some p \<longrightarrow>
            fst (setup_gcp_credentials_bq lib exists w) =
              default_client lib ((environ w)(''GOOGLE_APPLICATION_CREDENTIALS'' \<mapsto> p))) \<and>
         (\<not> truthy (environ w ''K_SERVICE'') \<and> first_existing exists (paths (environ w)) = None \<and>
          environ w ''GOOGLE_CREDENTIALS_JSON'' = Some j \<and> j \<noteq> [] \<longrightarrow>
            fst (setup_gcp_credentials_bq lib exists w) = json_client_bq lib j) \<and>
         (\<not> truthy (environ w ''K_SERVICE'') \<and> first_existing exists (paths (environ w)) = None \<and>
          \<not> truthy (environ w ''GOOGLE_CREDENTIALS_JSON'') \<longrightarrow>
            fst (setup_gcp_credentials_bq lib exists w) =
              Inl (Exception ''No se encontraron credenciales''))"
  by (cases "environ w ''GOOGLE_CREDENTIALS_JSON''")
    (simp_all add: setup_gcp_credentials_bq_def setup_body_bq_def Let_def)

lemma setup_gcs_cases:
  fixes lib :: "('info, 'cred, 'client) gcp"
  shows "(truthy (environ w ''K_SERVICE'') \<longrightarrow>
            fst (setup_gcp_credentials_gcs lib exists w) = default_client lib (environ w)) \<and>
         (\<not> truthy (environ w ''K_SERVICE'') \<and> first_existing exists (paths (environ w)) = Some p \<longrightarrow>
            fst (setup_gcp_credentials_gcs lib exists w) =
              default_client lib ((environ w)(''GOOGLE_APPLICATION_CREDENTIALS'' \<mapsto> p))) \<and>
         (\<not> truthy (environ w ''K_SERVICE'') \<and> first_existing exists (paths (environ w)) = None \<and>
          environ w ''GOOGLE_CREDENTIALS_JSON'' = Some j \<and> j \<noteq> [] \<longrightarrow>
            fst (setup_gcp_credentials_gcs lib exists w) = json_client_gcs lib j) \<and>
         (\<not> truthy (environ w ''K_SERVICE'') \<and> first_existing exists (paths (environ w)) = None \<and>
          \<not> truthy (environ w ''GOOGLE_CREDENTIALS_JSON'') \<longrightarrow>
            fst (setup_gcp_credentials_gcs lib exists w) =
              Inl (Exception ''No se encontraron credenciales''))"
  by (cases "environ w ''GOOGLE_CREDENTIALS_JSON''")
    (simp_all add: setup_gcp_credentials_gcs_def setup_body_gcs_def json_client_gcs_def Let_def
      split: sum.splits)

lemma resolver_cases:
  fixes lib :: "('info, 'cred, 'client) gcp"
  assumes "(resolver, json_client) = (setup_gcp_credentials_bq, json_client_bq) \<or>
           (resolver, json_client) = (setup_gcp_credentials_gcs, json_client_gcs)"
  shows "(truthy (environ w ''K_SERVICE'') \<longrightarrow>
            fst (resolver lib exists w) = default_client lib (environ w)) \<and>
         (\<not> truthy (environ w ''K_SERVICE'') \<and> first_existing exists (paths (environ w)) = Some p \<longrightarrow>
            fst (resolver lib exists w) =
              default_client lib ((environ w)(''GOOGLE_APPLICATION_CREDENTIALS'' \<mapsto> p))) \<and>
         (\<not> truthy (environ w ''K_SERVICE'') \<and> first_existing exists (paths (environ w)) = None \<and>
          environ w ''GOOGLE_CREDENTIALS_JSON'' = Some j \<and> j \<noteq> [] \<longrightarrow>
            fst (resolver lib exists w) = json_client lib j) \<and>
         (\<not> truthy (environ w ''K_SERVICE'') \<and> first_existing exists (paths (environ w)) = None \<and>
          \<not> truthy (environ w ''GOOGLE_CREDENTIALS_JSON'') \<longrightarrow>
            fst (resolver lib exists w) =
              Inl (Exception ''No se encontraron credenciales''))"
  using assms
proof
  assume "(resolver, json_client) = (setup_gcp_credentials_bq, json_client_bq)"
  then have s: "resolver = setup_gcp_credentials_bq" "json_client = json_client_bq" by simp_all
  show ?thesis unfolding s by (rule setup_bq_cases)
next
  assume "(resolver, json_client) = (setup_gcp_credentials_gcs, json_client_gcs)"
  then have s: "resolver = setup_gcp_credentials_gcs" "json_client = json_client_gcs" by simp_all
  show ?thesis unfolding s by (rule setup_gcs_cases)
qed

lemma scan_paths:
  "exists ''service-account-key.json'' \<Longrightarrow>
     first_existing exists (paths e) = Some ''service-account-key.json''"
  "\<not> exists ''service-account-key.json'' \<Longrightarrow> exists ''./service-account-key.json'' \<Longrightarrow>
     first_existing exists (paths e) = Some ''./service-account-key.json''"
  "\<not> exists ''service-account-key.json'' \<Longrightarrow> \<not> exists ''./service-account-key.json'' \<Longrightarrow>
     e ''GOOGLE_APPLICATION_CREDENTIALS'' = Some p \<Longrightarrow> p \<noteq> [] \<Longrightarrow> exists p \<Longrightarrow>
     first_existing exists (paths e) = Some p"
  "\<not> exists ''service-account-key.json'' \<Longrightarrow> \<not> exists ''./service-account-key.json'' \<Longrightarrow>
     \<forall>p. e ''GOOGLE_APPLICATION_CREDENTIALS'' = Some p \<longrightarrow> p = [] \<or> \<not> exists p \<Longrightarrow>
     first_existing exists (paths e) = None"
proof -
  show "exists ''service-account-key.json'' \<Longrightarrow>
     first_existing exists (paths e) = Some ''service-account-key.json''"
    by (simp add: paths_def)
  show "\<not> exists ''service-account-key.json'' \<Longrightarrow> exists ''./service-account-key.json'' \<Longrightarrow>
     first_existing exists (paths e) = Some ''./service-account-key.json''"
    by (simp add: paths_def)
  show "\<not> exists ''service-account-key.json'' \<Longrightarrow> \<not> exists ''./service-account-key.json'' \<Longrightarrow>
     e ''GOOGLE_APPLICATION_CREDENTIALS'' = Some p \<Longrightarrow> p \<noteq> [] \<Longrightarrow> exists p \<Longrightarrow>
     first_existing exists (paths e) = Some p"
    by (simp add: paths_def)
  show "\<not> exists ''service-account-key.json'' \<Longrightarrow> \<not> exists ''./service-account-key.json'' \<Longrightarrow>
     \<forall>p. e ''GOOGLE_APPLICATION_CREDENTIALS'' = Some p \<longrightarrow> p = [] \<or> \<not> exists p \<Longrightarrow>
     first_existing exists (paths e) = None"
    by (cases "e ''GOOGLE_APPLICATION_CREDENTIALS''") (simp_all add: paths_def)
qed

lemma truthy_iff:
  "truthy x \<longleftrightarrow> (\<exists>v. x = Some v \<and> v \<noteq> [])"
  "\<not> truthy x \<longleftrightarrow> (\<forall>v. x = Some v \<longrightarrow> v = [])"
  by (cases x; simp)+

text \<open>
  Claim C8. Both resolvers (\<open>resolver\<close> is either of them, \<open>json_client\<close> the client it
  builds from a JSON blob) try the sources in a fixed order and return the client of the
  first that applies, or raise what building that client raises. A variable is set when
  it has a non-empty value. (a) When \<open>K_SERVICE\<close> is set, the client of the ambient
  credentials, in the unchanged environment; (b) otherwise the default client with
  \<open>GOOGLE_APPLICATION_CREDENTIALS\<close> set to the first candidate path that exists, the
  candidates being \<open>service-account-key.json\<close>, then \<open>./service-account-key.json\<close>,
  then the value of \<open>GOOGLE_APPLICATION_CREDENTIALS\<close> when it is set; (c) otherwise,
  when no candidate exists and \<open>GOOGLE_CREDENTIALS_JSON\<close> is set, the client built from
  that blob; (d) when none applies, the exception \<open>No se encontraron credenciales\<close>.
\<close>

theorem credential_resolution_order:
  fixes lib :: "('info, 'cred, 'client) gcp"
  assumes "(resolver, json_client) = (setup_gcp_credentials_bq, json_client_bq) \<or>
           (resolver, json_client) = (setup_gcp_credentials_gcs, json_client_gcs)"
  shows "(environ w ''K_SERVICE'' = Some v \<and> v \<noteq> [] \<longrightarrow>
            fst (resolver lib exists w) = default_client lib (environ w)) \<and>
         ((\<forall>v. environ w ''K_SERVICE'' = Some v \<longrightarrow> v = []) \<and>
          exists ''service-account-key.json'' \<longrightarrow>
            fst (resolver lib exists w) =
              default_client lib
                ((environ w)(''GOOGLE_APPLICATION_CREDENTIALS'' \<mapsto> ''service-account-key.json''))) \<and>
         ((\<forall>v. environ w ''K_SERVICE'' = Some v \<longrightarrow> v = []) \<and>
          \<not> exists ''service-account-key.json'' \<and> exists ''./service-account-key.json'' \<longrightarrow>
            fst (resolver lib exists w) =
              default_client lib
                ((environ w)(''GOOGLE_APPLICATION_CREDENTIALS'' \<mapsto> ''./service-account-key.json''))) \<and>
         ((\<forall>v. environ w ''K_SERVICE'' = Some v \<longrightarrow> v = []) \<and>
          \<not> exists ''service-account-key.json'' \<and> \<not> exists ''./service-account-key.json'' \<and>
          environ w ''GOOGLE_APPLICATION_CREDENTIALS'' = Some p \<and> p \<noteq> [] \<and> exists p \<longrightarrow>
            fst (resolver lib exists w) =
              default_client lib ((environ w)(''GOOGLE_APPLICATION_CREDENTIALS'' \<mapsto> p))) \<and>
         ((\<forall>v. environ w ''K_SERVICE'' = Some v \<longrightarrow> v = []) \<and>
          \<not> exists ''service-account-key.json'' \<and> \<not> exists ''./service-account-key.json'' \<and>
          (\<forall>p. environ w ''GOOGLE_APPLICATION_CREDENTIALS'' = Some p \<longrightarrow> p = [] \<or> \<not> exists p) \<and>
          environ w ''GOOGLE_CREDENTIALS_JSON'' = Some j \<and> j \<noteq> [] \<longrightarrow>
            fst (resolver lib exists w) = json_client lib j) \<and>
         ((\<forall>v. environ w ''K_SERVICE'' = Some v \<longrightarrow> v = []) \<and>
          \<not> exists ''service-account-key.json'' \<and> \<not> exists ''./service-account-key.json'' \<and>
          (\<forall>p. environ w ''GOOGLE_APPLICATION_CREDENTIALS'' = Some p \<longrightarrow> p = [] \<or> \<not> exists p) \<and>
          (\<forall>j. environ w ''GOOGLE_CREDENTIALS_JSON'' = Some j \<longrightarrow> j = []) \<longrightarrow>
            fst (resolver lib exists w) = Inl (Exception ''No se encontraron credenciales''))"
proof -
  let ?e = "environ w"
  let ?k1 = "''service-account-key.json''"
  let ?k2 = "''./service-account-key.json''"
  let ?off = "\<forall>v. ?e ''K_SERVICE'' = Some v \<longrightarrow> v = []"
  let ?none = "\<forall>p. ?e ''GOOGLE_APPLICATION_CREDENTIALS'' = Some p \<longrightarrow> p = [] \<or> \<not> exists p"
  have found: "fst (resolver lib exists w) =
      default_client lib (?e(''GOOGLE_APPLICATION_CREDENTIALS'' \<mapsto> q))"
    if "?off" "first_existing exists (paths ?e) = Some q" for q
  proof -
    have "\<not> truthy (?e ''K_SERVICE'')" using that(1) by (simp only: truthy_iff(2))
    then show ?thesis
      using conjunct1 [OF conjunct2 [OF resolver_cases [OF assms, of w lib exists q j]]] that(2)
      by simp
  qed
  have a: "?e ''K_SERVICE'' = Some v \<and> v \<noteq> [] \<longrightarrow>
            fst (resolver lib exists w) = default_client lib ?e"
  proof
    assume "?e ''K_SERVICE'' = Some v \<and> v \<noteq> []"
    then have "truthy (?e ''K_SERVICE'')" by simp
    then show "fst (resolver lib exists w) = default_client lib ?e"
      using conjunct1 [OF resolver_cases [OF assms, of w lib exists p j]] by simp
  qed
  have b1: "?off \<and> exists ?k1 \<longrightarrow>
            fst (resolver lib exists w) =
              default_client lib (?e(''GOOGLE_APPLICATION_CREDENTIALS'' \<mapsto> ?k1))"
  proof (intro impI, elim conjE)
    assume h: "?off" "exists ?k1"
    show "fst (resolver lib exists w) =
              default_client lib (?e(''GOOGLE_APPLICATION_CREDENTIALS'' \<mapsto> ?k1))"
      using h(1) scan_paths(1) [where exists = exists and e = "?e", OF h(2)] by (rule found)
  qed
  have b2: "?off \<and> \<not> exists ?k1 \<and> exists ?k2 \<longrightarrow>
            fst (resolver lib exists w) =
              default_client lib (?e(''GOOGLE_APPLICATION_CREDENTIALS'' \<mapsto> ?k2))"
  proof (intro impI, elim conjE)
    assume h: "?off" "\<not> exists ?k1" "exists ?k2"
    show "fst (resolver lib exists w) =
              default_client lib (?e(''GOOGLE_APPLICATION_CREDENTIALS'' \<mapsto> ?k2))"
      using h(1) scan_paths(2) [where exists = exists and e = "?e", OF h(2,3)] by (rule found)
  qed
  have b3: "?off \<and> \<not> exists ?k1 \<and> \<not> exists ?k2 \<and>
          ?e ''GOOGLE_APPLICATION_CREDENTIALS'' = Some p \<and> p \<noteq> [] \<and> exists p \<longrightarrow>
            fst (resolver lib exists w) =
              default_client lib (?e(''GOOGLE_APPLICATION_CREDENTIALS'' \<mapsto> p))"
  proof (intro impI, elim conjE)
    assume h: "?off" "\<not> exists ?k1" "\<not> exists ?k2"
      "?e ''GOOGLE_APPLICATION_CREDENTIALS'' = Some p" "p \<noteq> []" "exists p"
    show "fst (resolver lib exists w) =
              default_client lib (?e(''GOOGLE_APPLICATION_CREDENTIALS'' \<mapsto> p))"
      using h(1) scan_paths(3) [where exists = exists and e = "?e", OF h(2-6)] by (rule found)
  qed
  have c: "?off \<and> \<not> exists ?k1 \<and> \<not> exists ?k2 \<and> ?none \<and>
          ?e ''GOOGLE_CREDENTIALS_JSON'' = Some j \<and> j \<noteq> [] \<longrightarrow>
            fst (resolver lib exists w) = json_client lib j"
  proof (intro impI, elim conjE)
    assume h: "?off" "\<not> exists ?k1" "\<not> exists ?k2" "?none"
      "?e ''GOOGLE_CREDENTIALS_JSON'' = Some j" "j \<noteq> []"
    have k: "\<not> truthy (?e ''K_SERVICE'')" using h(1) by (simp only: truthy_iff(2))
    have n: "first_existing exists (paths ?e) = None"
      using h(2-4) by (rule scan_paths(4) [where exists = exists and e = "?e"])
    show "fst (resolver lib exists w) = json_client lib j"
      using conjunct1 [OF conjunct2 [OF conjunct2 [OF resolver_cases [OF assms, of w lib exists p j]]]]
        k n h(5,6)
      by simp
  qed
  have d: "?off \<and> \<not> exists ?k1 \<and> \<not> exists ?k2 \<and> ?none \<and>
          (\<forall>j. ?e ''GOOGLE_CREDENTIALS_JSON'' = Some j \<longrightarrow> j = []) \<longrightarrow>
            fst (resolver lib exists w) = Inl (Exception ''No se encontraron credenciales'')"
  proof (intro impI, elim conjE)
    assume h: "?off" "\<not> exists ?k1" "\<not> exists ?k2" "?none"
      "\<forall>j. ?e ''GOOGLE_CREDENTIALS_JSON'' = Some j \<longrightarrow> j = []"
    have k: "\<not> truthy (?e ''K_SERVICE'')" using h(1) by (simp only: truthy_iff(2))
    have u: "\<not> truthy (?e ''GOOGLE_CREDENTIALS_JSON'')" using h(5) by (simp only: truthy_iff(2))
    have n: "first_existing exists (paths ?e) = None"
      using h(2-4) by (rule scan_paths(4) [where exists = exists and e = "?e"])
    show "fst (resolver lib exists w) = Inl (Exception ''No se encontraron credenciales'')"
      using conjunct2 [OF conjunct2 [OF conjunct2 [OF resolver_cases [OF assms, of w lib exists p j]]]]
        k n u
      by simp
  qed
  show ?thesis by (intro conjI a b1 b2 b3 c d)
qed

theorem credential_resolution_order_witness:
  "fst (setup_gcp_credentials_bq text_lib (\<lambda>p. True)
          (world_of [(''K_SERVICE'', ''etl''), (''GOOGLE_CREDENTIALS_JSON'', ''{}'')])) =
     Inr ''ambient'' \<and>
   fst (setup_gcp_credentials_gcs text_lib (\<lambda>p. True)
          (world_of [(''GOOGLE_APPLICATION_CREDENTIALS'', ''/k.json''),
                     (''GOOGLE_CREDENTIALS_JSON'', ''{}'')])) =
     Inr ''file service-account-key.json'' \<and>
   fst (setup_gcp_credentials_bq text_lib (\<lambda>p. p \<noteq> ''service-account-key.json'')
          (world_of [(''GOOGLE_APPLICATION_CREDENTIALS'', ''/k.json''),
                     (''GOOGLE_CREDENTIALS_JSON'', ''{}'')])) =
     Inr ''file ./service-account-key.json'' \<and>
   fst (setup_gcp_credentials_gcs text_lib (\<lambda>p. p = ''/k.json'')
          (world_of [(''GOOGLE_APPLICATION_CREDENTIALS'', ''/k.json''),
                     (''GOOGLE_CREDENTIALS_JSON'', ''{}'')])) =
     Inr ''file /k.json'' \<and>
   fst (setup_gcp_credentials_bq text_lib (\<lambda>p. False)
          (world_of [(''GOOGLE_APPLICATION_CREDENTIALS'', ''/k.json''),
                     (''GOOGLE_CREDENTIALS_JSON'', ''{}'')])) =
     Inr ''json {}'' \<and>
   fst (setup_gcp_credentials_gcs text_lib (\<lambda>p. False)
          (world_of [(''K_SERVICE'', []), (''GOOGLE_CREDENTIALS_JSON'', ''{}'')])) =
     Inr ''json {}'' \<and>
   fst (setup_gcp_credentials_gcs text_lib (\<lambda>p. False)
          (world_of [(''GOOGLE_APPLICATION_CREDENTIALS'', ''/k.json''),
                     (''GOOGLE_CREDENTIALS_JSON'', [])])) =
     Inl (Exception ''No se encontraron credenciales'')"
proof -
  let ?k1 = "''service-account-key.json''"
  let ?k2 = "''./service-account-key.json''"
  let ?run = "world_of [(''K_SERVICE'', ''etl''), (''GOOGLE_CREDENTIALS_JSON'', ''{}'')]"
  let ?both = "world_of [(''GOOGLE_APPLICATION_CREDENTIALS'', ''/k.json''),
                         (''GOOGLE_CREDENTIALS_JSON'', ''{}'')]"
  let ?empty = "world_of [(''K_SERVICE'', []), (''GOOGLE_CREDENTIALS_JSON'', ''{}'')]"
  let ?path = "world_of [(''GOOGLE_APPLICATION_CREDENTIALS'', ''/k.json''),
                         (''GOOGLE_CREDENTIALS_JSON'', [])]"
  note bq = credential_resolution_order
    [where resolver = setup_gcp_credentials_bq and json_client = json_client_bq
       and lib = text_lib, OF disjI1 [OF refl]]
  note gcs = credential_resolution_order
    [where resolver = setup_gcp_credentials_gcs and json_client = json_client_gcs
       and lib = text_lib, OF disjI2 [OF refl]]
  have a1: "environ ?run ''K_SERVICE'' = Some ''etl'' \<and> ''etl'' \<noteq> []"
    by (simp add: world_of_def)
  have a2: "default_client text_lib (environ ?run) = Inr ''ambient''"
    by (simp add: world_of_def text_lib_def)
  have a: "fst (setup_gcp_credentials_bq text_lib (\<lambda>p. True) ?run) = Inr ''ambient''"
    using mp [OF conjunct1 [OF bq [where w = ?run and exists = "\<lambda>p. True" and v = "''etl''"]] a1]
    by (simp only: a2)
  have fl: "default_client text_lib
              ((environ ?both)(''GOOGLE_APPLICATION_CREDENTIALS'' \<mapsto> q)) = Inr (''file '' @ q)" for q
    by (simp add: text_lib_def)
  have off: "\<forall>v. environ ?both ''K_SERVICE'' = Some v \<longrightarrow> v = []"
    by (simp add: world_of_def)
  have b11: "(\<forall>v. environ ?both ''K_SERVICE'' = Some v \<longrightarrow> v = []) \<and> (\<lambda>p. True) ?k1"
    using off by simp
  have b1: "fst (setup_gcp_credentials_gcs text_lib (\<lambda>p. True) ?both) =
             Inr ''file service-account-key.json''"
    using mp [OF conjunct1 [OF conjunct2 [OF gcs [where w = ?both and exists = "\<lambda>p. True"]]] b11]
    by (simp only: fl append.simps)
  have b21: "(\<forall>v. environ ?both ''K_SERVICE'' = Some v \<longrightarrow> v = []) \<and>
             \<not> (\<lambda>p. p \<noteq> ?k1) ?k1 \<and> (\<lambda>p. p \<noteq> ?k1) ?k2"
    using off by simp
  have b2: "fst (setup_gcp_credentials_bq text_lib (\<lambda>p. p \<noteq> ?k1) ?both) =
             Inr ''file ./service-account-key.json''"
    using mp [OF conjunct1 [OF conjunct2 [OF conjunct2
      [OF bq [where w = ?both and exists = "\<lambda>p. p \<noteq> ?k1"]]]] b21]
    by (simp only: fl append.simps)
  have b31: "(\<forall>v. environ ?both ''K_SERVICE'' = Some v \<longrightarrow> v = []) \<and>
             \<not> (\<lambda>p. p = ''/k.json'') ?k1 \<and> \<not> (\<lambda>p. p = ''/k.json'') ?k2 \<and>
             environ ?both ''GOOGLE_APPLICATION_CREDENTIALS'' = Some ''/k.json'' \<and>
             ''/k.json'' \<noteq> [] \<and> (\<lambda>p. p = ''/k.json'') ''/k.json''"
    using off by (simp add: world_of_def)
  have b3: "fst (setup_gcp_credentials_gcs text_lib (\<lambda>p. p = ''/k.json'') ?both) =
             Inr ''file /k.json''"
    using mp [OF conjunct1 [OF conjunct2 [OF conjunct2 [OF conjunct2
      [OF gcs [where w = ?both and exists = "\<lambda>p. p = ''/k.json''" and p = "''/k.json''"]]]]] b31]
    by (simp only: fl append.simps)
  have c1: "(\<forall>v. environ ?both ''K_SERVICE'' = Some v \<longrightarrow> v = []) \<and>
          \<not> (\<lambda>p. False) ?k1 \<and> \<not> (\<lambda>p. False) ?k2 \<and>
          (\<forall>p. environ ?both ''GOOGLE_APPLICATION_CREDENTIALS'' = Some p \<longrightarrow>
             p = [] \<or> \<not> (\<lambda>p. False) p) \<and>
          environ ?both ''GOOGLE_CREDENTIALS_JSON'' = Some ''{}'' \<and> ''{}'' \<noteq> []"
    using off by (simp add: world_of_def)
  have c2: "json_client_bq text_lib ''{}'' = Inr ''json {}''"
    by (simp add: json_client_bq_def text_lib_def)
  have c: "fst (setup_gcp_credentials_bq text_lib (\<lambda>p. False) ?both) = Inr ''json {}''"
    using mp [OF conjunct1 [OF conjunct2 [OF conjunct2 [OF conjunct2 [OF conjunct2
      [OF bq [where w = ?both and exists = "\<lambda>p. False" and j = "''{}''"]]]]]] c1]
    by (simp only: c2)
  have e1: "(\<forall>v. environ ?empty ''K_SERVICE'' = Some v \<longrightarrow> v = []) \<and>
          \<not> (\<lambda>p. False) ?k1 \<and> \<not> (\<lambda>p. False) ?k2 \<and>
          (\<forall>p. environ ?empty ''GOOGLE_APPLICATION_CREDENTIALS'' = Some p \<longrightarrow>
             p = [] \<or> \<not> (\<lambda>p. False) p) \<and>
          environ ?empty ''GOOGLE_CREDENTIALS_JSON'' = Some ''{}'' \<and> ''{}'' \<noteq> []"
    by (simp add: world_of_def)
  have e2: "json_client_gcs text_lib ''{}'' = Inr ''json {}''"
    by (simp add: json_client_gcs_def text_lib_def)
  have e: "fst (setup_gcp_credentials_gcs text_lib (\<lambda>p. False) ?empty) = Inr ''json {}''"
    using mp [OF conjunct1 [OF conjunct2 [OF conjunct2 [OF conjunct2 [OF conjunct2
      [OF gcs [where w = ?empty and exists = "\<lambda>p. False" and j = "''{}''"]]]]]] e1]
    by (simp only: e2)
  have d1: "(\<forall>v. environ ?path ''K_SERVICE'' = Some v \<longrightarrow> v = []) \<and>
          \<not> (\<lambda>p. False) ?k1 \<and> \<not> (\<lambda>p. False) ?k2 \<and>
          (\<forall>p. environ ?path ''GOOGLE_APPLICATION_CREDENTIALS'' = Some p \<longrightarrow>
             p = [] \<or> \<not> (\<lambda>p. False) p) \<and>
          (\<forall>j. environ ?path ''GOOGLE_CREDENTIALS_JSON'' = Some j \<longrightarrow> j = [])"
    by (simp add: world_of_def)
  have d: "fst (setup_gcp_credentials_gcs text_lib (\<lambda>p. False) ?path) =
             Inl (Exception ''No se encontraron credenciales'')"
    using mp [OF conjunct2 [OF conjunct2 [OF conjunct2 [OF conjunct2 [OF conjunct2
      [OF gcs [where w = ?path and exists = "\<lambda>p. False"]]]]]] d1] .
  show ?thesis by (intro conjI a b1 b2 b3 c e d)
qed

end
